theory Spec2Isabelle
  imports Main "HOL-Library.Sublist" "HOL-Library.AList"
begin

section \<open>Python values and the dynamic operations TwitchApi.py applies to them\<close>

text \<open>
  Every response body reaches the client through \<^verbatim>\<open>requests ... .json()\<close>, so the
  values the methods work on are parsed JSON documents. A JSON object is an association
  list read through \<^const>\<open>map_of\<close>; in a parsed body the keys are distinct. Strings are
  lists of characters. JSON numbers with a fraction or an exponent (Python floats) are
  not part of the model: every number is an unbounded Python int.
\<close>

datatype json =
    JNull
  | JBool bool
  | JInt int
  | JStr string
  | JList "json list"
  | JObj "(string \<times> json) list"

text \<open>
  The exceptions the code can meet. \<open>SSLError\<close> and \<open>ConnectionError\<close> are the two
  classes imported from \<^verbatim>\<open>requests.exceptions\<close> (each constructor stands for the class
  with its subclasses); \<open>KeyError\<close>, \<open>TypeError\<close>, \<open>IndexError\<close> and
  \<open>AttributeError\<close> are raised by Python's own subscripting, iteration, comparison and
  attribute access; \<open>SystemExit\<close> is what \<^verbatim>\<open>sys.exit(msg)\<close> raises; \<open>OtherError\<close> is any
  other exception of the transport (a read timeout, a body that is not JSON, ...).
\<close>

datatype exn =
    SSLError
  | ConnectionError
  | KeyError
  | TypeError
  | IndexError
  | AttributeError
  | SystemExit string
  | OtherError string

text \<open>\<^verbatim>\<open>v[k]\<close> for a string key: only a dict accepts it.\<close>

fun getitem :: "json \<Rightarrow> string \<Rightarrow> exn + json" where
  "getitem (JObj kvs) k = (case map_of kvs k of None \<Rightarrow> Inl KeyError | Some v \<Rightarrow> Inr v)"
| "getitem JNull k = Inl TypeError"
| "getitem (JBool b) k = Inl TypeError"
| "getitem (JInt i) k = Inl TypeError"
| "getitem (JStr s) k = Inl TypeError"
| "getitem (JList xs) k = Inl TypeError"

text \<open>\<^verbatim>\<open>v[0]\<close>: the first element of a list or string; a parsed dict has string keys only.\<close>

fun getitem0 :: "json \<Rightarrow> exn + json" where
  "getitem0 (JList xs) = (case xs of [] \<Rightarrow> Inl IndexError | x # _ \<Rightarrow> Inr x)"
| "getitem0 (JStr s) = (case s of [] \<Rightarrow> Inl IndexError | c # _ \<Rightarrow> Inr (JStr [c]))"
| "getitem0 (JObj kvs) = Inl KeyError"
| "getitem0 JNull = Inl TypeError"
| "getitem0 (JBool b) = Inl TypeError"
| "getitem0 (JInt i) = Inl TypeError"

text \<open>\<^verbatim>\<open>for x in v\<close>: a list yields its elements, a dict its keys, a string its characters.\<close>

fun py_iter :: "json \<Rightarrow> exn + json list" where
  "py_iter (JList xs) = Inr xs"
| "py_iter (JObj kvs) = Inr (map JStr (remdups (map fst kvs)))"
| "py_iter (JStr s) = Inr (map (\<lambda>c. JStr [c]) s)"
| "py_iter JNull = Inl TypeError"
| "py_iter (JBool b) = Inl TypeError"
| "py_iter (JInt i) = Inl TypeError"

text \<open>\<^verbatim>\<open>len(v)\<close>.\<close>

fun py_len :: "json \<Rightarrow> exn + json" where
  "py_len (JList xs) = Inr (JInt (int (length xs)))"
| "py_len (JObj kvs) = Inr (JInt (int (length (remdups (map fst kvs)))))"
| "py_len (JStr s) = Inr (JInt (int (length s)))"
| "py_len JNull = Inl TypeError"
| "py_len (JBool b) = Inl TypeError"
| "py_len (JInt i) = Inl TypeError"

text \<open>\<^verbatim>\<open>v > n\<close> for an int \<open>n\<close>: defined on numbers (bool is a subclass of int).\<close>

fun py_gt :: "json \<Rightarrow> int \<Rightarrow> exn + bool" where
  "py_gt (JInt i) n = Inr (n < i)"
| "py_gt (JBool b) n = Inr (n < (if b then 1 else 0))"
| "py_gt JNull n = Inl TypeError"
| "py_gt (JStr s) n = Inl TypeError"
| "py_gt (JList xs) n = Inl TypeError"
| "py_gt (JObj kvs) n = Inl TypeError"

text \<open>\<^verbatim>\<open>k in v\<close> for a string \<open>k\<close>: key of a dict, element of a list, substring of a string.\<close>

fun py_in :: "string \<Rightarrow> json \<Rightarrow> exn + bool" where
  "py_in k (JObj kvs) = Inr (k \<in> set (map fst kvs))"
| "py_in k (JList xs) = Inr (JStr k \<in> set xs)"
| "py_in k (JStr s) = Inr (sublist k s)"
| "py_in k JNull = Inl TypeError"
| "py_in k (JBool b) = Inl TypeError"
| "py_in k (JInt i) = Inl TypeError"

text \<open>The truth value of \<^verbatim>\<open>if v:\<close>.\<close>

fun truthy :: "json \<Rightarrow> bool" where
  "truthy JNull = False"
| "truthy (JBool b) = b"
| "truthy (JInt i) = (i \<noteq> 0)"
| "truthy (JStr s) = (s \<noteq> [])"
| "truthy (JList xs) = (xs \<noteq> [])"
| "truthy (JObj kvs) = (kvs \<noteq> [])"

text \<open>
  \<^verbatim>\<open>v.lower()\<close>: only a string has the method. The letters A to Z are mapped; every
  other character is kept (user names are ASCII).
\<close>

definition lower_char :: "char \<Rightarrow> char" where
  "lower_char c =
     (case map_of (zip ''ABCDEFGHIJKLMNOPQRSTUVWXYZ'' ''abcdefghijklmnopqrstuvwxyz'') c of
        None \<Rightarrow> c
      | Some d \<Rightarrow> d)"

fun py_lower :: "json \<Rightarrow> exn + string" where
  "py_lower (JStr s) = Inr (map lower_char s)"
| "py_lower JNull = Inl AttributeError"
| "py_lower (JBool b) = Inl AttributeError"
| "py_lower (JInt i) = Inl AttributeError"
| "py_lower (JList xs) = Inl AttributeError"
| "py_lower (JObj kvs) = Inl AttributeError"

text \<open>Values a \<^verbatim>\<open>set\<close> or a dict key accepts: lists and dicts are unhashable.\<close>

fun hashable :: "json \<Rightarrow> bool" where
  "hashable (JList xs) = False"
| "hashable (JObj kvs) = False"
| "hashable JNull = True"
| "hashable (JBool b) = True"
| "hashable (JInt i) = True"
| "hashable (JStr s) = True"

text \<open>Sequencing: the first exception ends the evaluation.\<close>

definition bindE :: "exn + 'a \<Rightarrow> ('a \<Rightarrow> exn + 'b) \<Rightarrow> exn + 'b" where
  "bindE m f = (case m of Inl e \<Rightarrow> Inl e | Inr x \<Rightarrow> f x)"

section \<open>The HTTP transport and the state of the process\<close>

text \<open>
  A request as the code builds it. A header value is a plain string (absent when the
  environment variable is), or one of the two f-strings \<^verbatim>\<open>Bearer {token}\<close> and
  \<^verbatim>\<open>OAuth {token}\<close>, kept symbolic. \<open>params\<close> and \<open>payload\<close> hold the query
  parameters and the request body as the values the code passes.
\<close>

datatype http_method = GET | POST

datatype header_value = Plain "string option" | Bearer json | OAuth string

record request =
  meth :: http_method
  url :: string
  headers :: "(string \<times> header_value) list"
  params :: json
  payload :: json
  timeout :: "nat option"

text \<open>
  The transport is the \<^verbatim>\<open>requests\<close> library with the platform behind it: given a
  request and the state of the outside world it raises or returns the parsed body
  (\<^verbatim>\<open>requests.get(...).json()\<close> as one step), and moves the world on.
\<close>

type_synonym 'w transport = "request \<Rightarrow> 'w \<Rightarrow> (exn + json) \<times> 'w"

text \<open>
  The state a method runs in: the outside world, the requests sent so far, and the
  \<^verbatim>\<open>.env\<close> file as the key-value store \<^verbatim>\<open>set_key\<close> writes.
\<close>

record 'w state =
  world :: 'w
  calls :: "request list"
  dotenv :: "string \<rightharpoonup> string"

definition http :: "'w transport \<Rightarrow> request \<Rightarrow> 'w state \<Rightarrow> (exn + json) \<times> 'w state" where
  "http T rq s =
     (case T rq (world s) of
        (res, w') \<Rightarrow> (res, s\<lparr>world := w', calls := calls s @ [rq]\<rparr>))"

text \<open>A transport that answers every request the same way, for concrete runs.\<close>

definition const_transport :: "exn + json \<Rightarrow> unit transport" where
  "const_transport res rq w = (res, w)"

definition state0 :: "unit state" where
  "state0 = \<lparr>world = (), calls = [], dotenv = Map.empty\<rparr>"

section \<open>The client\<close>

text \<open>
  \<^verbatim>\<open>self.app_info\<close> and \<^verbatim>\<open>self.headers\<close>. The client id and secret come from
  \<^verbatim>\<open>os.getenv\<close> and may be absent; the token is whatever \<open>get_token\<close> returned.
\<close>

record client =
  app_client_id :: "string option"
  app_client_secret :: "string option"
  app_token :: json

definition client_headers :: "client \<Rightarrow> (string \<times> header_value) list" where
  "client_headers c =
     [(''Client-ID'', Plain (app_client_id c)), (''Authorization'', Bearer (app_token c))]"

subsection \<open>get_top_streams\<close>

definition streams_request :: "client \<Rightarrow> request" where
  "streams_request c =
     \<lparr>meth = GET, url = ''https://api.twitch.tv/helix/streams'',
      headers = client_headers c,
      params = JObj [(''game_id'',
                 JList [JList [JStr ''id'', JStr ''459931''], JList [JStr ''id'', JStr ''2083'']])],
      payload = JNull, timeout = Some 10\<rparr>"

text \<open>
  The list comprehension \<^verbatim>\<open>[s for s in r["data"] if s["viewer_count"] > 100]\<close> over the
  elements already produced by the iteration: the first element that has no
  \<open>viewer_count\<close>, or a \<open>viewer_count\<close> that does not compare with an int, raises.
\<close>

fun over_100 :: "json list \<Rightarrow> exn + json list" where
  "over_100 [] = Inr []"
| "over_100 (x # xs) =
     (case getitem x ''viewer_count'' of
        Inl e \<Rightarrow> Inl e
      | Inr v \<Rightarrow>
          (case py_gt v 100 of
             Inl e \<Rightarrow> Inl e
           | Inr b \<Rightarrow>
               (case over_100 xs of
                  Inl e \<Rightarrow> Inl e
                | Inr ys \<Rightarrow> Inr (if b then x # ys else ys))))"

text \<open>The body of the \<^verbatim>\<open>try\<close> once the transport has answered.\<close>

definition top_streams_of :: "exn + json \<Rightarrow> exn + json list" where
  "top_streams_of res =
     (case res of
        Inl e \<Rightarrow> Inl e
      | Inr r \<Rightarrow>
          (case getitem r ''data'' of
             Inl e \<Rightarrow> Inl e
           | Inr d \<Rightarrow>
               (case py_iter d of
                  Inl e \<Rightarrow> Inl e
                | Inr xs \<Rightarrow> over_100 xs)))"

text \<open>\<^verbatim>\<open>except (SSLError, ConnectionError, KeyError): return []\<close>; anything else propagates.\<close>

definition get_top_streams :: "'w transport \<Rightarrow> client \<Rightarrow> 'w state \<Rightarrow> (exn + json list) \<times> 'w state" where
  "get_top_streams T c s =
     (case http T (streams_request c) s of
        (res, s') \<Rightarrow>
          (case top_streams_of res of
             Inl e \<Rightarrow>
               if e = SSLError \<or> e = ConnectionError \<or> e = KeyError then (Inr [], s')
               else (Inl e, s')
           | Inr ys \<Rightarrow> (Inr ys, s')))"

subsection \<open>get_video_count and get_follower_count\<close>

definition videos_request :: "client \<Rightarrow> json \<Rightarrow> request" where
  "videos_request c user_id =
     \<lparr>meth = GET, url = ''https://api.twitch.tv/helix/videos'',
      headers = client_headers c, params = JObj [(''user_id'', user_id)],
      payload = JNull, timeout = Some 10\<rparr>"

definition follows_request :: "client \<Rightarrow> json \<Rightarrow> request" where
  "follows_request c user_id =
     \<lparr>meth = GET, url = ''https://api.twitch.tv/helix/users/follows'',
      headers = client_headers c, params = JObj [(''to_id'', user_id)],
      payload = JNull, timeout = Some 10\<rparr>"

text \<open>\<^verbatim>\<open>return len(r["data"])\<close>, and 10000 from the bare \<^verbatim>\<open>except\<close>.\<close>

definition get_video_count :: "'w transport \<Rightarrow> client \<Rightarrow> json \<Rightarrow> 'w state \<Rightarrow> (exn + json) \<times> 'w state" where
  "get_video_count T c user_id s =
     (case http T (videos_request c user_id) s of
        (res, s') \<Rightarrow>
          (case bindE res (\<lambda>r. bindE (getitem r ''data'') py_len) of
             Inl e \<Rightarrow> (Inr (JInt 10000), s')
           | Inr n \<Rightarrow> (Inr n, s')))"

text \<open>\<^verbatim>\<open>return r["total"]\<close>, and 10000000 from the bare \<^verbatim>\<open>except\<close>.\<close>

definition get_follower_count :: "'w transport \<Rightarrow> client \<Rightarrow> json \<Rightarrow> 'w state \<Rightarrow> (exn + json) \<times> 'w state" where
  "get_follower_count T c user_id s =
     (case http T (follows_request c user_id) s of
        (res, s') \<Rightarrow>
          (case bindE res (\<lambda>r. getitem r ''total'') of
             Inl e \<Rightarrow> (Inr (JInt 10000000), s')
           | Inr n \<Rightarrow> (Inr n, s')))"

subsection \<open>get_stream_details\<close>

text \<open>
  \<open>stream_info\<close> is a dict from the lower-cased user name to a dict of fields; both are
  association lists with distinct keys, and \<^const>\<open>AList.update\<close> is the item assignment
  of a Python dict (an existing key keeps its place, a new one goes last).
\<close>

type_synonym entry = "(string \<times> json) list"

text \<open>One key-value pair of the dict comprehension: the key is evaluated first.\<close>

definition summary_of :: "json \<Rightarrow> exn + (string \<times> entry)" where
  "summary_of s =
     bindE (getitem s ''user_name'') (\<lambda>name.
     bindE (py_lower name) (\<lambda>key.
     bindE (getitem s ''user_id'') (\<lambda>uid.
     bindE (getitem s ''viewer_count'') (\<lambda>viewers.
     bindE (getitem s ''title'') (\<lambda>title.
     bindE (getitem s ''thumbnail_url'') (\<lambda>thumb.
     bindE (getitem s ''started_at'') (\<lambda>started.
     bindE (getitem s ''user_name'') (\<lambda>name'.
     bindE (py_lower name') (\<lambda>display.
       Inr (key, [(''user_id'', uid), (''viewer_count'', viewers), (''title'', title),
                  (''thumbnail'', thumb), (''started'', started),
                  (''display'', JStr display)]))))))))))"

fun stream_info_of :: "json list \<Rightarrow> (string \<times> entry) list \<Rightarrow> exn + (string \<times> entry) list" where
  "stream_info_of [] acc = Inr acc"
| "stream_info_of (s # ss) acc =
     (case summary_of s of
        Inl e \<Rightarrow> Inl e
      | Inr (k, v) \<Rightarrow> stream_info_of ss (AList.update k v acc))"

text \<open>\<^verbatim>\<open>payload = [("login", login) for login in stream_info]\<close>.\<close>

definition users_request :: "client \<Rightarrow> (string \<times> entry) list \<Rightarrow> request" where
  "users_request c info =
     \<lparr>meth = GET, url = ''https://api.twitch.tv/helix/users'',
      headers = client_headers c,
      params = JList (map (\<lambda>login. JList [JStr ''login'', JStr login]) (map fst info)),
      payload = JNull, timeout = Some 10\<rparr>"

text \<open>
  \<^verbatim>\<open>stream_info[v]\<close>: an unhashable \<open>v\<close> is a TypeError, and a hashable one that is
  not one of the (string) keys a KeyError.
\<close>

fun info_at :: "(string \<times> entry) list \<Rightarrow> json \<Rightarrow> exn + (string \<times> entry)" where
  "info_at info (JStr k) = (case map_of info k of None \<Rightarrow> Inl KeyError | Some ent \<Rightarrow> Inr (k, ent))"
| "info_at info (JList xs) = Inl TypeError"
| "info_at info (JObj kvs) = Inl TypeError"
| "info_at info JNull = Inl KeyError"
| "info_at info (JBool b) = Inl KeyError"
| "info_at info (JInt i) = Inl KeyError"

text \<open>
  One round of \<^verbatim>\<open>for result in r["data"]\<close>. \<open>info\<close> aliases the entry inside
  \<open>stream_info\<close>, so each assignment is an update of the entry stored under its key.
\<close>

definition enrich ::
  "'w transport \<Rightarrow> client \<Rightarrow> json \<Rightarrow> (string \<times> entry) list \<Rightarrow> 'w state
     \<Rightarrow> (exn + (string \<times> entry) list) \<times> 'w state" where
  "enrich T c result stream_info s =
     (case getitem result ''login'' of
        Inl e \<Rightarrow> (Inl e, s)
      | Inr login \<Rightarrow>
     (case info_at stream_info login of
        Inl e \<Rightarrow> (Inl e, s)
      | Inr (k, info) \<Rightarrow>
     (case getitem result ''broadcaster_type'' of
        Inl e \<Rightarrow> (Inl e, s)
      | Inr tier \<Rightarrow>
     (case getitem result ''view_count'' of
        Inl e \<Rightarrow> (Inl e, s)
      | Inr views \<Rightarrow>
        (let info1 = AList.update ''channel_views'' views
                       (AList.update ''broadcaster_type'' tier info)
         in if tier = JStr [] then
              (case map_of info1 ''user_id'' of
                 None \<Rightarrow> (Inl KeyError, s)
               | Some uid \<Rightarrow>
                   (case get_follower_count T c uid s of
                      (Inl e, s1) \<Rightarrow> (Inl e, s1)
                    | (Inr followers, s1) \<Rightarrow>
                        (case get_video_count T c uid s1 of
                           (Inl e, s2) \<Rightarrow> (Inl e, s2)
                         | (Inr videos, s2) \<Rightarrow>
                             (Inr (AList.update k
                                    (AList.update ''videos'' videos
                                      (AList.update ''followers'' followers info1))
                                    stream_info), s2))))
            else (Inr (AList.update k info1 stream_info), s))))))"

fun enrich_all ::
  "'w transport \<Rightarrow> client \<Rightarrow> json list \<Rightarrow> (string \<times> entry) list \<Rightarrow> 'w state
     \<Rightarrow> (exn + (string \<times> entry) list) \<times> 'w state" where
  "enrich_all T c [] stream_info s = (Inr stream_info, s)"
| "enrich_all T c (result # results) stream_info s =
     (case enrich T c result stream_info s of
        (Inl e, s') \<Rightarrow> (Inl e, s')
      | (Inr stream_info', s') \<Rightarrow> enrich_all T c results stream_info' s')"

text \<open>The body of the \<^verbatim>\<open>try\<close>: the bulk users call and the loop over its records.\<close>

definition details_body ::
  "'w transport \<Rightarrow> client \<Rightarrow> (string \<times> entry) list \<Rightarrow> 'w state
     \<Rightarrow> (exn + (string \<times> entry) list) \<times> 'w state" where
  "details_body T c stream_info s =
     (case http T (users_request c stream_info) s of
        (Inl e, s1) \<Rightarrow> (Inl e, s1)
      | (Inr r, s1) \<Rightarrow>
          (case getitem r ''data'' of
             Inl e \<Rightarrow> (Inl e, s1)
           | Inr d \<Rightarrow>
               (case py_iter d of
                  Inl e \<Rightarrow> (Inl e, s1)
                | Inr results \<Rightarrow> enrich_all T c results stream_info s1)))"

text \<open>
  The dict comprehension runs before the \<^verbatim>\<open>try\<close>; the bare \<^verbatim>\<open>except\<close> turns every
  exception of the body into the empty dict.
\<close>

definition get_stream_details ::
  "'w transport \<Rightarrow> client \<Rightarrow> json list \<Rightarrow> 'w state
     \<Rightarrow> (exn + (string \<times> entry) list) \<times> 'w state" where
  "get_stream_details T c streams s =
     (case stream_info_of streams [] of
        Inl e \<Rightarrow> (Inl e, s)
      | Inr stream_info \<Rightarrow>
          (case details_body T c stream_info s of
             (Inl e, s') \<Rightarrow> (Inr [], s')
           | (Inr stream_info', s') \<Rightarrow> (Inr stream_info', s')))"

subsection \<open>get_token and the constructor\<close>

definition json_of_env :: "string option \<Rightarrow> json" where
  "json_of_env v = (case v of None \<Rightarrow> JNull | Some x \<Rightarrow> JStr x)"

definition validate_request :: "string \<Rightarrow> request" where
  "validate_request saved_token =
     \<lparr>meth = GET, url = ''https://id.twitch.tv/oauth2/validate'',
      headers = [(''Authorization'', OAuth saved_token)],
      params = JNull, payload = JNull, timeout = None\<rparr>"

definition token_request :: "(string \<Rightarrow> string option) \<Rightarrow> request" where
  "token_request getenv =
     \<lparr>meth = POST, url = ''https://id.twitch.tv/oauth2/token'',
      headers = [], params = JNull,
      payload = JObj [(''client_id'', json_of_env (getenv ''CLIENT_ID'')),
                      (''client_secret'', json_of_env (getenv ''CLIENT_SECRET'')),
                      (''grant_type'', JStr ''client_credentials''),
                      (''scope'', JStr ''analytics:read:games'')],
      timeout = None\<rparr>"

text \<open>
  \<^verbatim>\<open>set_key(".env", key, value)\<close> of python-dotenv treats the value as a string: a
  value that is not a string raises AttributeError before anything is written, a string
  is stored under the key (the quoting inside the file is left out).
\<close>

fun set_key :: "(string \<rightharpoonup> string) \<Rightarrow> string \<Rightarrow> json \<Rightarrow> exn + (string \<rightharpoonup> string)" where
  "set_key store k (JStr v) = Inr (store(k \<mapsto> v))"
| "set_key store k JNull = Inl AttributeError"
| "set_key store k (JBool b) = Inl AttributeError"
| "set_key store k (JInt i) = Inl AttributeError"
| "set_key store k (JList xs) = Inl AttributeError"
| "set_key store k (JObj kvs) = Inl AttributeError"

text \<open>
  The second half of \<open>get_token\<close>: request a token, store it with \<^verbatim>\<open>set_key\<close> and
  return it, or leave through \<^verbatim>\<open>sys.exit\<close>. Nothing here is inside a \<^verbatim>\<open>try\<close>.
\<close>

definition request_token ::
  "'w transport \<Rightarrow> (string \<Rightarrow> string option) \<Rightarrow> 'w state \<Rightarrow> (exn + json) \<times> 'w state" where
  "request_token T getenv s =
     (case http T (token_request getenv) s of
        (Inl e, s') \<Rightarrow> (Inl e, s')
      | (Inr r, s') \<Rightarrow>
          (case py_in ''access_token'' r of
             Inl e \<Rightarrow> (Inl e, s')
           | Inr present \<Rightarrow>
               if present then
                 (case getitem r ''access_token'' of
                    Inl e \<Rightarrow> (Inl e, s')
                  | Inr tok \<Rightarrow>
                      (case set_key (dotenv s') ''ACCESS_TOKEN'' tok of
                         Inl e \<Rightarrow> (Inl e, s')
                       | Inr store \<Rightarrow> (Inr tok, s'\<lparr>dotenv := store\<rparr>)))
               else (Inl (SystemExit ''Unable to generate access token''), s')))"

text \<open>
  \<open>getenv\<close> is \<^verbatim>\<open>os.getenv\<close>, the environment of the process (read, never written).
  \<^verbatim>\<open>if saved_token:\<close> holds for a non-empty string.
\<close>

definition get_token ::
  "'w transport \<Rightarrow> (string \<Rightarrow> string option) \<Rightarrow> 'w state \<Rightarrow> (exn + json) \<times> 'w state" where
  "get_token T getenv s =
     (case getenv ''ACCESS_TOKEN'' of
        None \<Rightarrow> request_token T getenv s
      | Some saved_token \<Rightarrow>
          if saved_token = [] then request_token T getenv s
          else
            (case http T (validate_request saved_token) s of
               (Inl e, s') \<Rightarrow> (Inl e, s')
             | (Inr r, s') \<Rightarrow>
                 (case py_in ''client_id'' r of
                    Inl e \<Rightarrow> (Inl e, s')
                  | Inr valid \<Rightarrow>
                      if valid then (Inr (JStr saved_token), s')
                      else request_token T getenv s')))"

text \<open>The constructor: there is a client only when \<open>get_token\<close> returned.\<close>

definition init ::
  "'w transport \<Rightarrow> (string \<Rightarrow> string option) \<Rightarrow> 'w state \<Rightarrow> (exn + client) \<times> 'w state" where
  "init T getenv s =
     (case get_token T getenv s of
        (Inl e, s') \<Rightarrow> (Inl e, s')
      | (Inr tok, s') \<Rightarrow>
          (Inr \<lparr>app_client_id = getenv ''CLIENT_ID'',
                app_client_secret = getenv ''CLIENT_SECRET'',
                app_token = tok\<rparr>, s'))"

subsection \<open>get_panel_links\<close>

definition panels_request :: "json \<Rightarrow> request" where
  "panels_request user_id =
     \<lparr>meth = POST, url = ''https://gql.twitch.tv/gql'',
      headers = [(''Client-ID'', Plain (Some ''kimne78kx3ncx6brgo4mv6wki5h1ko'')),
                 (''User-Agent'', Plain (Some (''Mozilla/5.0 (Windows NT 10.0; Win64; x64) AppleWebKit/537.36 '' @
                    ''(KHTML, like Gecko) Chrome/70.0.3538.77 Safari/537.36'')))],
      params = JNull,
      payload = JList [JObj [(''operationName'', JStr ''ChannelPanels''),
                  (''variables'', JObj [(''id'', user_id)]),
                  (''extensions'', JObj [(''persistedQuery'',
                      JObj [(''version'', JInt 1),
                            (''sha256Hash'', JStr ''236b0ec07489e5172ee1327d114172f27aceca206a1a8053106d60926a7f622e'')])])]],
      timeout = None\<rparr>"

text \<open>
  The compiled pattern
  \<^verbatim>\<open>(?:https?:\/\/|(?:www\.))+[-a-zA-Z0-9@:%._\+~#=]{1,256}\.[a-zA-Z0-9()]{1,6}\b(?:[-a-zA-Z0-9()@:%_\+.~#?&//=]*)\<close>
  as Python's backtracking matcher reads it, on ASCII text. The four character classes:
  the host part, the part after the dot, the tail, and the word characters that \<^verbatim>\<open>\b\<close>
  looks at.
\<close>

definition alnum :: string where
  "alnum = ''abcdefghijklmnopqrstuvwxyzABCDEFGHIJKLMNOPQRSTUVWXYZ0123456789''"

definition host_char :: "char \<Rightarrow> bool" where
  "host_char c = (c \<in> set (''-'' @ alnum @ ''@:%._+~#=''))"

definition tld_char :: "char \<Rightarrow> bool" where
  "tld_char c = (c \<in> set (alnum @ ''()''))"

definition tail_char :: "char \<Rightarrow> bool" where
  "tail_char c = (c \<in> set (''-'' @ alnum @ ''()@:%_+.~#?&/=''))"

definition word_char :: "char \<Rightarrow> bool" where
  "word_char c = (c \<in> set (alnum @ ''_''))"

text \<open>
  One round of \<^verbatim>\<open>(?:https?:\/\/|(?:www\.))\<close>: what is left of the string after it, if it
  matches. At most one of the alternatives can match at a position.
\<close>

definition strip_scheme :: "string \<Rightarrow> string option" where
  "strip_scheme s =
     (if prefix ''https://'' s then Some (drop 8 s)
      else if prefix ''http://'' s then Some (drop 7 s)
      else if prefix ''www.'' s then Some (drop 4 s)
      else None)"

text \<open>
  The greedy \<^verbatim>\<open>+\<close> around it: the strings left after one or more rounds, in the order
  the matcher tries them, the most rounds first.
\<close>

function schemes :: "string \<Rightarrow> string list" where
  "schemes s = (case strip_scheme s of None \<Rightarrow> [] | Some r \<Rightarrow> schemes r @ [r])"
  by pat_completeness auto
termination
  by (relation "measure length") (auto simp: strip_scheme_def prefix_def split: if_splits)

text \<open>The first alternative that succeeds, as backtracking finds it.\<close>

fun first_some :: "('a \<Rightarrow> 'b option) \<Rightarrow> 'a list \<Rightarrow> 'b option" where
  "first_some f [] = None"
| "first_some f (x # xs) = (case f x of None \<Rightarrow> first_some f xs | Some y \<Rightarrow> Some y)"

text \<open>
  A greedy class repetition \<^verbatim>\<open>{1,hi}\<close>: the numbers of characters it can take, the
  longest first, down to one.
\<close>

fun countdown :: "nat \<Rightarrow> nat list" where
  "countdown 0 = []"
| "countdown (Suc n) = Suc n # countdown n"

definition greedy :: "nat \<Rightarrow> (char \<Rightarrow> bool) \<Rightarrow> string \<Rightarrow> nat list" where
  "greedy hi P s = countdown (min hi (length (takeWhile P s)))"

text \<open>
  \<^verbatim>\<open>\b\<close> after the character \<open>prev\<close>: exactly one of \<open>prev\<close> and the next character
  is a word character (the end of the string counts as none).
\<close>

definition word_boundary :: "char \<Rightarrow> string \<Rightarrow> bool" where
  "word_boundary prev rest =
     (word_char prev \<noteq> (case rest of [] \<Rightarrow> False | c # _ \<Rightarrow> word_char c))"

text \<open>
  From the right of the dot, with \<open>m\<close> characters taken by \<^verbatim>\<open>[a-zA-Z0-9()]{1,6}\<close>: the
  word boundary, then the greedy tail; the result is what is left after the match.
\<close>

definition match_tld :: "string \<Rightarrow> nat \<Rightarrow> string option" where
  "match_tld s m =
     (if word_boundary (last (take m s)) (drop m s) then Some (dropWhile tail_char (drop m s))
      else None)"

text \<open>From the host part, with \<open>n\<close> characters taken by the host class: the dot and the rest.\<close>

definition match_dot :: "string \<Rightarrow> nat \<Rightarrow> string option" where
  "match_dot s n =
     (case drop n s of
        [] \<Rightarrow> None
      | c # rest \<Rightarrow>
          if c = CHR ''.'' then first_some (match_tld rest) (greedy 6 tld_char rest) else None)"

definition match_host :: "string \<Rightarrow> string option" where
  "match_host s = first_some (match_dot s) (greedy 256 host_char s)"

text \<open>A match of the whole pattern at the start of \<open>s\<close>: what is left of \<open>s\<close> after it.\<close>

definition match_at :: "string \<Rightarrow> string option" where
  "match_at s = first_some match_host (schemes s)"

text \<open>
  \<^verbatim>\<open>findall\<close>: the leftmost match, then the search goes on behind it. \<open>skip\<close> counts the
  characters of the current match still to pass.
\<close>

fun scan :: "nat \<Rightarrow> string \<Rightarrow> string list" where
  "scan skip [] = []"
| "scan (Suc skip) (c # cs) = scan skip cs"
| "scan 0 (c # cs) =
     (case match_at (c # cs) of
        None \<Rightarrow> scan 0 cs
      | Some rest \<Rightarrow>
          take (Suc (length cs) - length rest) (c # cs) # scan (length cs - length rest) cs)"

definition url_findall :: "string \<Rightarrow> string list" where
  "url_findall s = scan 0 s"

text \<open>
  \<^verbatim>\<open>findall(url_regex, v)\<close>: the pattern has no capturing group, so the result is the
  list of the matched substrings; applied to anything but a string it is a TypeError. The
  functions below take the matcher as their argument \<open>findall\<close>; in the code it is
  \<open>url_findall\<close>.
\<close>

fun find_urls :: "(string \<Rightarrow> string list) \<Rightarrow> json \<Rightarrow> exn + string list" where
  "find_urls findall (JStr s) = Inr (findall s)"
| "find_urls findall JNull = Inl TypeError"
| "find_urls findall (JBool b) = Inl TypeError"
| "find_urls findall (JInt i) = Inl TypeError"
| "find_urls findall (JList xs) = Inl TypeError"
| "find_urls findall (JObj kvs) = Inl TypeError"

text \<open>One round of \<^verbatim>\<open>for panel in ...\<close>, from the links collected so far.\<close>

definition panel_links :: "(string \<Rightarrow> string list) \<Rightarrow> json \<Rightarrow> json list \<Rightarrow> exn + json list" where
  "panel_links findall panel links =
     bindE (getitem panel ''linkURL'') (\<lambda>link.
       let links1 = (if truthy link then links @ [link] else links) in
       bindE (getitem panel ''description'') (\<lambda>description.
         if truthy description then
           bindE (find_urls findall description) (\<lambda>matches.
             Inr (if matches \<noteq> [] then links1 @ map JStr matches else links1))
         else Inr links1))"

fun collect_links :: "(string \<Rightarrow> string list) \<Rightarrow> json list \<Rightarrow> json list \<Rightarrow> exn + json list" where
  "collect_links findall [] links = Inr links"
| "collect_links findall (panel # panels) links =
     bindE (panel_links findall panel links) (collect_links findall panels)"

text \<open>
  \<^verbatim>\<open>list(set(links))\<close>. Two values are the same member of a set when Python's \<open>==\<close>
  holds between them: \<open>True == 1\<close> and \<open>False == 0\<close>, which \<open>py_key\<close> identifies.
  The order in which a set hands out its members is not fixed by the language, so it is
  a parameter \<open>enum\<close>, and \<open>enumerates\<close> states what every order satisfies: the
  members come from the list, every value of the list is represented, no value twice.
\<close>

fun py_key :: "json \<Rightarrow> json" where
  "py_key (JBool b) = JInt (if b then 1 else 0)"
| "py_key JNull = JNull"
| "py_key (JInt i) = JInt i"
| "py_key (JStr s) = JStr s"
| "py_key (JList xs) = JList xs"
| "py_key (JObj kvs) = JObj kvs"


definition list_of_set :: "(json list \<Rightarrow> json list) \<Rightarrow> json list \<Rightarrow> exn + json list" where
  "list_of_set enum links = (if list_all hashable links then Inr (enum links) else Inl TypeError)"

text \<open>One such order: each value where it is first seen.\<close>

fun first_seen :: "json list \<Rightarrow> json list" where
  "first_seen [] = []"
| "first_seen (x # xs) = x # first_seen (filter (\<lambda>y. py_key y \<noteq> py_key x) xs)"

text \<open>The expression \<^verbatim>\<open>r[0]["data"]["user"]["panels"]\<close>.\<close>

definition panels_of :: "json \<Rightarrow> exn + json" where
  "panels_of r =
     bindE (getitem0 r) (\<lambda>r0.
     bindE (getitem r0 ''data'') (\<lambda>d.
     bindE (getitem d ''user'') (\<lambda>u.
       getitem u ''panels'')))"

text \<open>
  Only the request and the decoding of its body are inside the \<^verbatim>\<open>try\<close>; the walk
  through the body and the loop come after it.
\<close>

definition get_panel_links ::
  "(string \<Rightarrow> string list) \<Rightarrow> (json list \<Rightarrow> json list) \<Rightarrow> 'w transport \<Rightarrow> json \<Rightarrow> 'w state
     \<Rightarrow> (exn + json list) \<times> 'w state" where
  "get_panel_links findall enum T user_id s =
     (case http T (panels_request user_id) s of
        (Inl e, s') \<Rightarrow> (Inr [], s')
      | (Inr r, s') \<Rightarrow>
          (bindE (panels_of r) (\<lambda>ps.
           bindE (py_iter ps) (\<lambda>panels.
           bindE (collect_links findall panels []) (\<lambda>links.
             list_of_set enum links))), s'))"

section \<open>Notions used to state the properties\<close>

text \<open>
  The viewer count of a stream record: defined when the record is an object whose
  \<open>viewer_count\<close> is an integer.
\<close>

definition viewer_count :: "json \<Rightarrow> int option" where
  "viewer_count x = (case getitem x ''viewer_count'' of Inr (JInt i) \<Rightarrow> Some i | _ \<Rightarrow> None)"

text \<open>A client for concrete runs.\<close>

definition client0 :: client where
  "client0 = \<lparr>app_client_id = Some ''id'', app_client_secret = Some ''secret'', app_token = JStr ''token''\<rparr>"

text \<open>An environment with a stored token, for concrete runs of \<open>get_token\<close>.\<close>

definition env0 :: "string \<Rightarrow> string option" where
  "env0 = map_of [(''CLIENT_ID'', ''id''), (''CLIENT_SECRET'', ''secret''),
                  (''ACCESS_TOKEN'', ''old'')]"

text \<open>An environment without a stored token.\<close>

definition env1 :: "string \<Rightarrow> string option" where
  "env1 = map_of [(''CLIENT_ID'', ''id''), (''CLIENT_SECRET'', ''secret'')]"

text \<open>
  Entries of the mapping \<open>get_stream_details\<close> works on. An entry is \<open>unenriched\<close>
  when it has no tier, follower count or video count yet, and \<open>tier_consistent\<close> when
  its follower count and its video count are each present exactly when its tier is the
  empty string.
\<close>

definition unenriched :: "entry \<Rightarrow> bool" where
  "unenriched ent =
     (map_of ent ''broadcaster_type'' = None \<and> map_of ent ''followers'' = None \<and>
      map_of ent ''videos'' = None)"

definition tier_consistent :: "entry \<Rightarrow> bool" where
  "tier_consistent ent =
     ((map_of ent ''followers'' \<noteq> None) = (map_of ent ''broadcaster_type'' = Some (JStr [])) \<and>
      (map_of ent ''videos'' \<noteq> None) = (map_of ent ''broadcaster_type'' = Some (JStr [])))"

text \<open>The user id stored in the entry of a login.\<close>

definition uid_of :: "(string \<times> entry) list \<Rightarrow> string \<Rightarrow> json option" where
  "uid_of info k = (case map_of info k of None \<Rightarrow> None | Some ent \<Rightarrow> map_of ent ''user_id'')"

text \<open>
  The requests one user record of the bulk response accounts for: the follower and the
  video lookup for the user id of its entry when its tier is the empty string, none
  otherwise.
\<close>

definition lookups_of :: "client \<Rightarrow> (string \<times> entry) list \<Rightarrow> json \<Rightarrow> request list" where
  "lookups_of c info x =
     (if getitem x ''broadcaster_type'' = Inr (JStr []) then
        (case getitem x ''login'' of
           Inr (JStr k) \<Rightarrow>
             (case uid_of info k of
                Some uid \<Rightarrow> [follows_request c uid, videos_request c uid]
              | None \<Rightarrow> [])
         | _ \<Rightarrow> [])
      else [])"

text \<open>
  A user record the loop cannot process: it has no \<open>login\<close>, or its login is not a key
  of the mapping, or it has no \<open>broadcaster_type\<close> or no \<open>view_count\<close>.
\<close>

definition record_fails :: "(string \<times> entry) list \<Rightarrow> json \<Rightarrow> bool" where
  "record_fails info x =
     (isl (bindE (getitem x ''login'') (info_at info)) \<or>
      isl (getitem x ''broadcaster_type'') \<or> isl (getitem x ''view_count''))"

text \<open>A stream record and a user record, for concrete runs.\<close>

definition example_stream :: "string \<Rightarrow> string \<Rightarrow> int \<Rightarrow> json" where
  "example_stream name uid viewers =
     JObj [(''user_name'', JStr name), (''user_id'', JStr uid), (''viewer_count'', JInt viewers),
           (''title'', JStr ''any%''), (''thumbnail_url'', JStr ''t.jpg''),
           (''started_at'', JStr ''2021-01-01T00:00:00Z'')]"

definition example_user :: "string \<Rightarrow> string \<Rightarrow> json" where
  "example_user login tier =
     JObj [(''login'', JStr login), (''broadcaster_type'', JStr tier), (''view_count'', JInt 10)]"

section \<open>Properties\<close>

subsection \<open>Sequencing\<close>

lemma bindE_simps [simp]: "bindE (Inl e) f = Inl e" "bindE (Inr x) f = f x"
  by (simp_all add: bindE_def)

lemma bindE_Inr_iff: "bindE m f = Inr y \<longleftrightarrow> (\<exists>x. m = Inr x \<and> f x = Inr y)"
  by (cases m) simp_all

subsection \<open>get_top_streams: threshold, degradation, order\<close>

lemma py_gt_True_iff: "py_gt v 100 = Inr True \<longleftrightarrow> (\<exists>i. v = JInt i \<and> 100 < i)"
  by (cases v) auto

lemma passes_viewer_count:
  "getitem x ''viewer_count'' = Inr v \<Longrightarrow> py_gt v 100 = Inr True \<Longrightarrow> \<exists>i. viewer_count x = Some i \<and> 100 < i"
  by (auto simp: viewer_count_def py_gt_True_iff)

lemma over_100_sound:
  "over_100 xs = Inr ys \<Longrightarrow> x \<in> set ys \<Longrightarrow> \<exists>i. viewer_count x = Some i \<and> 100 < i"
proof (induction xs arbitrary: ys)
  case Nil
  then show ?case by simp
next
  case (Cons a xs)
  then show ?case
    by (auto split: sum.splits if_splits dest: passes_viewer_count)
qed

lemma over_100_complete:
  "\<forall>x\<in>set xs. viewer_count x \<noteq> None \<Longrightarrow>
   over_100 xs = Inr (filter (\<lambda>x. \<exists>i. viewer_count x = Some i \<and> 100 < i) xs)"
proof (induction xs)
  case Nil
  then show ?case by simp
next
  case (Cons a xs)
  then obtain i where "getitem a ''viewer_count'' = Inr (JInt i)"
    by (auto simp: viewer_count_def split: sum.splits json.splits)
  with Cons show ?case by (simp add: viewer_count_def)
qed

lemma over_100_subseq: "over_100 xs = Inr ys \<Longrightarrow> subseq ys xs"
  by (induction xs arbitrary: ys) (auto split: sum.splits if_splits)

lemma get_top_streams_eq:
  "T (streams_request c) (world s) = (res, w') \<Longrightarrow>
   fst (get_top_streams T c s) =
     (case top_streams_of res of
        Inl e \<Rightarrow> if e = SSLError \<or> e = ConnectionError \<or> e = KeyError then Inr [] else Inl e
      | Inr ys \<Rightarrow> Inr ys)"
  by (simp add: get_top_streams_def http_def split: sum.splits)

lemma top_streams_of_sound:
  assumes "top_streams_of res = Inr out" "x \<in> set out"
  shows "\<exists>i. viewer_count x = Some i \<and> 100 < i"
proof -
  from assms(1) obtain xs where "over_100 xs = Inr out"
    by (auto simp: top_streams_of_def split: sum.splits)
  from this assms(2) show ?thesis by (rule over_100_sound)
qed

lemma get_top_streams_sound:
  assumes "fst (get_top_streams T c s) = Inr out" "x \<in> set out"
  shows "\<exists>i. viewer_count x = Some i \<and> 100 < i"
proof -
  obtain res w' where resp: "T (streams_request c) (world s) = (res, w')"
    by (cases "T (streams_request c) (world s)")
  from get_top_streams_eq [of T c s res w', OF resp] assms(1)
  have "top_streams_of res = Inr out \<or> out = []"
    by (cases "top_streams_of res") (auto split: if_splits)
  with assms(2) show ?thesis
    by (auto dest: top_streams_of_sound)
qed

text \<open>
  Claim C1, as amended. Whatever the platform answers, every stream \<open>get_top_streams\<close>
  returns has an integer viewer count strictly greater than 100, so no stream with at
  most 100 viewers is ever returned. When every entry of the response's \<open>data\<close> list
  carries an integer viewer count, the result is exactly the entries with more than 100
  viewers: 100 is excluded, 101 is included.
\<close>

theorem get_top_streams_threshold:
  "(fst (get_top_streams T c s) = Inr out \<longrightarrow>
      (\<forall>x\<in>set out. \<exists>i. viewer_count x = Some i \<and> 100 < i)) \<and>
   (T (streams_request c) (world s) = (Inr r, w') \<and> getitem r ''data'' = Inr (JList ss) \<and>
    (\<forall>x\<in>set ss. viewer_count x \<noteq> None) \<longrightarrow>
      fst (get_top_streams T c s) =
        Inr (filter (\<lambda>x. \<exists>i. viewer_count x = Some i \<and> 100 < i) ss))"
proof (intro conjI impI ballI)
  fix x assume "fst (get_top_streams T c s) = Inr out" "x \<in> set out"
  then show "\<exists>i. viewer_count x = Some i \<and> 100 < i"
    by (rule get_top_streams_sound)
next
  assume a: "T (streams_request c) (world s) = (Inr r, w') \<and> getitem r ''data'' = Inr (JList ss) \<and>
    (\<forall>x\<in>set ss. viewer_count x \<noteq> None)"
  then have resp: "T (streams_request c) (world s) = (Inr r, w')"
    and wf: "\<forall>x\<in>set ss. viewer_count x \<noteq> None"
    by simp_all
  from a have "top_streams_of (Inr r) = over_100 ss"
    by (simp add: top_streams_of_def)
  with get_top_streams_eq [of T c s "Inr r" w', OF resp] over_100_complete [OF wf]
  show "fst (get_top_streams T c s) =
        Inr (filter (\<lambda>x. \<exists>i. viewer_count x = Some i \<and> 100 < i) ss)"
    by simp
qed

text \<open>
  The boundary, on a response with one stream of exactly 100 viewers and one of 101.
\<close>

theorem get_top_streams_threshold_witness:
  "fst (get_top_streams
          (const_transport (Inr (JObj [(''data'',
             JList [JObj [(''viewer_count'', JInt 100)], JObj [(''viewer_count'', JInt 101)]])])))
          client0 state0) = Inr [JObj [(''viewer_count'', JInt 101)]]"
proof -
  let ?ss = "[JObj [(''viewer_count'', JInt 100)], JObj [(''viewer_count'', JInt 101)]]"
  let ?r = "JObj [(''data'', JList ?ss)]"
  have resp: "const_transport (Inr ?r) (streams_request client0) (world state0) = (Inr ?r, ())"
    by (simp add: const_transport_def)
  have data: "getitem ?r ''data'' = Inr (JList ?ss)"
    by simp
  have wf: "\<forall>x\<in>set ?ss. viewer_count x \<noteq> None"
    by (simp add: viewer_count_def)
  from get_top_streams_threshold [of "const_transport (Inr ?r)" client0 state0 "[]" ?r "()" ?ss]
    resp data wf
  show ?thesis by (simp add: viewer_count_def)
qed

text \<open>
  Claim C1 as stated (for every platform response, every stream with more than 100
  viewers is included) fails: one entry without a \<open>viewer_count\<close> raises KeyError
  inside the comprehension, the handler returns the empty list, and the stream with 150
  viewers beside it is not returned.
\<close>

theorem get_top_streams_threshold_counterexample:
  "viewer_count (JObj [(''viewer_count'', JInt 150)]) = Some 150 \<and>
   fst (get_top_streams
          (const_transport (Inr (JObj [(''data'',
             JList [JObj [(''viewer_count'', JInt 150)], JObj []])])))
          client0 state0) = Inr []"
  by (simp add: viewer_count_def get_top_streams_def http_def const_transport_def
        top_streams_of_def state0_def)

text \<open>
  Claim C6, as amended. When the transport raises a TLS error or a connection error, or
  the response body is a JSON object without a \<open>data\<close> field, \<open>get_top_streams\<close>
  returns the empty list instead of propagating the failure.
\<close>

theorem get_top_streams_degrades:
  assumes "T (streams_request c) (world s) = (res, w')"
    and "res = Inl SSLError \<or> res = Inl ConnectionError \<or>
         (\<exists>kvs. res = Inr (JObj kvs) \<and> map_of kvs ''data'' = None)"
  shows "fst (get_top_streams T c s) = Inr []"
proof -
  from assms(2) have "top_streams_of res = Inl SSLError \<or> top_streams_of res = Inl ConnectionError
      \<or> top_streams_of res = Inl KeyError"
    by (auto simp: top_streams_of_def)
  then show ?thesis
    using get_top_streams_eq [of T c s res w', OF assms(1)] by auto
qed

theorem get_top_streams_degrades_witness:
  "fst (get_top_streams (const_transport (Inl SSLError)) client0 state0) = Inr [] \<and>
   fst (get_top_streams (const_transport (Inl ConnectionError)) client0 state0) = Inr [] \<and>
   fst (get_top_streams (const_transport (Inr (JObj [(''error'', JStr ''Unauthorized'')]))) client0 state0) = Inr []"
proof -
  have r: "\<And>res. const_transport res (streams_request client0) (world state0) = (res, ())"
    by (simp add: const_transport_def)
  have a: "fst (get_top_streams (const_transport (Inl SSLError)) client0 state0) = Inr []"
    using get_top_streams_degrades [of "const_transport (Inl SSLError)" client0 state0 "Inl SSLError" "()"] r
    by simp
  have b: "fst (get_top_streams (const_transport (Inl ConnectionError)) client0 state0) = Inr []"
    using get_top_streams_degrades [of "const_transport (Inl ConnectionError)" client0 state0
        "Inl ConnectionError" "()"] r
    by simp
  let ?r = "JObj [(''error'', JStr ''Unauthorized'')]"
  have c: "fst (get_top_streams (const_transport (Inr ?r)) client0 state0) = Inr []"
    using get_top_streams_degrades [of "const_transport (Inr ?r)" client0 state0 "Inr ?r" "()"] r
    by simp
  from a b c show ?thesis by simp
qed

text \<open>
  Claim C6 as stated (whenever the body lacks a \<open>data\<close> field) fails for a body that
  is not an object: on \<^verbatim>\<open>null\<close> and on an empty JSON array the subscript
  \<^verbatim>\<open>r["data"]\<close> raises TypeError, which the \<^verbatim>\<open>except\<close> clause does not name, so
  the exception reaches the caller.
\<close>

theorem get_top_streams_degrades_counterexample:
  "fst (get_top_streams (const_transport (Inr JNull)) client0 state0) = Inl TypeError \<and>
   fst (get_top_streams (const_transport (Inr (JList []))) client0 state0) = Inl TypeError"
  by (simp add: get_top_streams_def http_def const_transport_def top_streams_of_def state0_def)

text \<open>
  Claim C10. On the success path the returned list is an order-preserving subsequence
  of the response's \<open>data\<close> array: the surviving records are the records of the
  response, unchanged, in their order, none twice.
\<close>

theorem get_top_streams_subseq:
  assumes resp: "T (streams_request c) (world s) = (Inr r, w')"
    and data: "getitem r ''data'' = Inr (JList ss)"
    and out: "fst (get_top_streams T c s) = Inr out"
  shows "subseq out ss"
proof -
  have "top_streams_of (Inr r) = over_100 ss"
    using data by (simp add: top_streams_of_def)
  with get_top_streams_eq [of T c s "Inr r" w', OF resp] out
  have "over_100 ss = Inr out \<or> out = []"
    by (auto split: sum.splits if_splits)
  then show ?thesis
    by (auto dest: over_100_subseq)
qed

theorem get_top_streams_subseq_witness:
  "subseq [JObj [(''viewer_count'', JInt 500), (''user_name'', JStr ''A'')],
           JObj [(''viewer_count'', JInt 101), (''user_name'', JStr ''C'')]]
          [JObj [(''viewer_count'', JInt 500), (''user_name'', JStr ''A'')],
           JObj [(''viewer_count'', JInt 7), (''user_name'', JStr ''B'')],
           JObj [(''viewer_count'', JInt 101), (''user_name'', JStr ''C'')]]"
proof -
  let ?ss = "[JObj [(''viewer_count'', JInt 500), (''user_name'', JStr ''A'')],
           JObj [(''viewer_count'', JInt 7), (''user_name'', JStr ''B'')],
           JObj [(''viewer_count'', JInt 101), (''user_name'', JStr ''C'')]]"
  let ?r = "JObj [(''data'', JList ?ss)]"
  have resp: "const_transport (Inr ?r) (streams_request client0) (world state0) = (Inr ?r, ())"
    by (simp add: const_transport_def)
  have data: "getitem ?r ''data'' = Inr (JList ?ss)"
    by simp
  have out: "fst (get_top_streams (const_transport (Inr ?r)) client0 state0) =
      Inr [JObj [(''viewer_count'', JInt 500), (''user_name'', JStr ''A'')],
           JObj [(''viewer_count'', JInt 101), (''user_name'', JStr ''C'')]]"
    by (simp add: get_top_streams_def http_def const_transport_def top_streams_of_def state0_def)
  show ?thesis
    by (rule get_top_streams_subseq [of "const_transport (Inr ?r)" client0 state0 ?r "()" ?ss, OF resp data out])
qed


subsection \<open>get_follower_count and get_video_count\<close>

lemma http_fst: "T rq (world s) = (res, w') \<Longrightarrow> http T rq s = (res, s\<lparr>world := w', calls := calls s @ [rq]\<rparr>)"
  by (simp add: http_def)

lemma get_follower_count_eq:
  "T (follows_request c uid) (world s) = (res, w') \<Longrightarrow>
   fst (get_follower_count T c uid s) =
     (case bindE res (\<lambda>r. getitem r ''total'') of Inl e \<Rightarrow> Inr (JInt 10000000) | Inr n \<Rightarrow> Inr n)"
  by (simp add: get_follower_count_def http_def split: sum.splits)

lemma get_video_count_eq:
  "T (videos_request c uid) (world s) = (res, w') \<Longrightarrow>
   fst (get_video_count T c uid s) =
     (case bindE res (\<lambda>r. bindE (getitem r ''data'') py_len) of
        Inl e \<Rightarrow> Inr (JInt 10000) | Inr n \<Rightarrow> Inr n)"
  by (simp add: get_video_count_def http_def split: sum.splits)

lemma get_follower_count_returns: "\<exists>v. fst (get_follower_count T c uid s) = Inr v"
  by (simp add: get_follower_count_def split: prod.splits sum.splits)

lemma get_video_count_returns: "\<exists>v. fst (get_video_count T c uid s) = Inr v"
  by (simp add: get_video_count_def split: prod.splits sum.splits)

text \<open>
  Claim C4. For every user id, transport and state, \<open>get_follower_count\<close> and
  \<open>get_video_count\<close> return a value and never an exception. When the request raises
  (any exception), or the body has no \<open>total\<close> (no \<open>data\<close> with a length), the
  follower count is exactly 10000000 and the video count exactly 10000.
\<close>

theorem count_lookups_sentinel:
  "(\<exists>v. fst (get_follower_count T c uid s) = Inr v) \<and>
   (\<exists>v. fst (get_video_count T c uid s) = Inr v) \<and>
   (\<forall>e w'. T (follows_request c uid) (world s) = (Inl e, w') \<longrightarrow>
      fst (get_follower_count T c uid s) = Inr (JInt 10000000)) \<and>
   (\<forall>r e w'. T (follows_request c uid) (world s) = (Inr r, w') \<and> getitem r ''total'' = Inl e \<longrightarrow>
      fst (get_follower_count T c uid s) = Inr (JInt 10000000)) \<and>
   (\<forall>e w'. T (videos_request c uid) (world s) = (Inl e, w') \<longrightarrow>
      fst (get_video_count T c uid s) = Inr (JInt 10000)) \<and>
   (\<forall>r e w'. T (videos_request c uid) (world s) = (Inr r, w') \<and>
        bindE (getitem r ''data'') py_len = Inl e \<longrightarrow>
      fst (get_video_count T c uid s) = Inr (JInt 10000))"
proof (intro conjI allI impI)
  show "\<exists>v. fst (get_follower_count T c uid s) = Inr v"
    by (rule get_follower_count_returns)
  show "\<exists>v. fst (get_video_count T c uid s) = Inr v"
    by (rule get_video_count_returns)
next
  fix e w' assume "T (follows_request c uid) (world s) = (Inl e, w')"
  from get_follower_count_eq [of T c uid s "Inl e" w', OF this]
  show "fst (get_follower_count T c uid s) = Inr (JInt 10000000)" by simp
next
  fix r e w'
  assume a: "T (follows_request c uid) (world s) = (Inr r, w') \<and> getitem r ''total'' = Inl e"
  then have "T (follows_request c uid) (world s) = (Inr r, w')" ..
  from get_follower_count_eq [of T c uid s "Inr r" w', OF this] a
  show "fst (get_follower_count T c uid s) = Inr (JInt 10000000)" by simp
next
  fix e w' assume "T (videos_request c uid) (world s) = (Inl e, w')"
  from get_video_count_eq [of T c uid s "Inl e" w', OF this]
  show "fst (get_video_count T c uid s) = Inr (JInt 10000)" by simp
next
  fix r e w'
  assume a: "T (videos_request c uid) (world s) = (Inr r, w') \<and>
        bindE (getitem r ''data'') py_len = Inl e"
  then have "T (videos_request c uid) (world s) = (Inr r, w')" ..
  from get_video_count_eq [of T c uid s "Inr r" w', OF this] a
  show "fst (get_video_count T c uid s) = Inr (JInt 10000)" by simp
qed

text \<open>Both lookups under a read timeout, and under a body without the expected field.\<close>

theorem count_lookups_sentinel_witness:
  "fst (get_follower_count (const_transport (Inl (OtherError ''ReadTimeout''))) client0 (JStr ''42'') state0)
     = Inr (JInt 10000000) \<and>
   fst (get_video_count (const_transport (Inl (OtherError ''ReadTimeout''))) client0 (JStr ''42'') state0)
     = Inr (JInt 10000) \<and>
   fst (get_follower_count (const_transport (Inr (JObj [(''error'', JStr ''Unauthorized'')]))) client0 (JStr ''42'') state0)
     = Inr (JInt 10000000) \<and>
   fst (get_video_count (const_transport (Inr (JObj [(''error'', JStr ''Unauthorized'')]))) client0 (JStr ''42'') state0)
     = Inr (JInt 10000)"
proof -
  let ?e = "OtherError ''ReadTimeout''"
  let ?r = "JObj [(''error'', JStr ''Unauthorized'')]"
  have r: "\<And>res rq. const_transport res rq (world state0) = (res, ())"
    by (simp add: const_transport_def)
  note a = count_lookups_sentinel [of "const_transport (Inl ?e)" client0 "JStr ''42''" state0]
  note b = count_lookups_sentinel [of "const_transport (Inr ?r)" client0 "JStr ''42''" state0]
  have 1: "fst (get_follower_count (const_transport (Inl ?e)) client0 (JStr ''42'') state0) = Inr (JInt 10000000)"
    using a r by blast
  have 2: "fst (get_video_count (const_transport (Inl ?e)) client0 (JStr ''42'') state0) = Inr (JInt 10000)"
    using a r by blast
  have t: "getitem ?r ''total'' = Inl KeyError" by simp
  have d: "bindE (getitem ?r ''data'') py_len = Inl KeyError" by simp
  have 3: "fst (get_follower_count (const_transport (Inr ?r)) client0 (JStr ''42'') state0) = Inr (JInt 10000000)"
    using b r t by blast
  have 4: "fst (get_video_count (const_transport (Inr ?r)) client0 (JStr ''42'') state0) = Inr (JInt 10000)"
    using b r d by blast
  from 1 2 3 4 show ?thesis by simp
qed

subsection \<open>get_panel_links\<close>








lemma get_panel_links_eq:
  "T (panels_request uid) (world s) = (res, w') \<Longrightarrow>
   fst (get_panel_links findall enum T uid s) =
     (case res of
        Inl e \<Rightarrow> Inr []
      | Inr r \<Rightarrow>
          bindE (panels_of r) (\<lambda>ps.
          bindE (py_iter ps) (\<lambda>panels.
          bindE (collect_links findall panels []) (\<lambda>links.
            list_of_set enum links))))"
  by (simp add: get_panel_links_def http_def split: sum.splits)






text \<open>
  Claim C5, as amended. When the request raises, or its body cannot be decoded (the
  transport answers with an exception of any kind), \<open>get_panel_links\<close> returns the
  empty list and raises nothing.
\<close>

theorem get_panel_links_request_failure:
  assumes "T (panels_request uid) (world s) = (Inl e, w')"
  shows "fst (get_panel_links findall enum T uid s) = Inr []"
  using get_panel_links_eq [of T uid s "Inl e" w' findall enum, OF assms] by simp

theorem get_panel_links_request_failure_witness:
  "fst (get_panel_links url_findall first_seen (const_transport (Inl ConnectionError))
          (JStr ''42'') state0) = Inr [] \<and>
   fst (get_panel_links url_findall first_seen (const_transport (Inl (OtherError ''JSONDecodeError'')))
          (JStr ''42'') state0) = Inr []"
proof -
  have r: "\<And>res. const_transport res (panels_request (JStr ''42'')) (world state0) = (res, ())"
    by (simp add: const_transport_def)
  have a: "fst (get_panel_links url_findall first_seen (const_transport (Inl ConnectionError))
          (JStr ''42'') state0) = Inr []"
    using get_panel_links_request_failure [of "const_transport (Inl ConnectionError)" "JStr ''42''"
        state0 ConnectionError "()" url_findall first_seen] r
    by simp
  have b: "fst (get_panel_links url_findall first_seen
          (const_transport (Inl (OtherError ''JSONDecodeError''))) (JStr ''42'') state0) = Inr []"
    using get_panel_links_request_failure [of "const_transport (Inl (OtherError ''JSONDecodeError''))"
        "JStr ''42''" state0 "OtherError ''JSONDecodeError''" "()" url_findall first_seen] r
    by simp
  from a b show ?thesis by simp
qed

text \<open>
  Claim C5 as stated fails for a body that decodes but lacks the panel structure: for
  \<^verbatim>\<open>[{"data": {"user": null}}]\<close> (a user the platform does not know) the subscript
  \<^verbatim>\<open>["panels"]\<close> of \<open>None\<close> raises TypeError after the \<^verbatim>\<open>try\<close>, and for an empty
  JSON array \<^verbatim>\<open>r[0]\<close> raises IndexError; both reach the caller.
\<close>

theorem get_panel_links_request_failure_counterexample:
  "fst (get_panel_links url_findall first_seen
          (const_transport (Inr (JList [JObj [(''data'', JObj [(''user'', JNull)])]])))
          (JStr ''42'') state0) = Inl TypeError \<and>
   fst (get_panel_links url_findall first_seen (const_transport (Inr (JList [])))
          (JStr ''42'') state0) = Inl IndexError"
  by (simp add: get_panel_links_def http_def const_transport_def panels_of_def state0_def)

subsection \<open>get_token and the constructor\<close>

lemma request_token_eq:
  assumes "T (token_request getenv) (world s) = (res, w')"
  shows "request_token T getenv s =
     (let s' = s\<lparr>world := w', calls := calls s @ [token_request getenv]\<rparr> in
      case res of
        Inl e \<Rightarrow> (Inl e, s')
      | Inr r \<Rightarrow>
          (case py_in ''access_token'' r of
             Inl e \<Rightarrow> (Inl e, s')
           | Inr present \<Rightarrow>
               if present then
                 (case getitem r ''access_token'' of
                    Inl e \<Rightarrow> (Inl e, s')
                  | Inr tok \<Rightarrow>
                      (case set_key (dotenv s') ''ACCESS_TOKEN'' tok of
                         Inl e \<Rightarrow> (Inl e, s')
                       | Inr store \<Rightarrow> (Inr tok, s'\<lparr>dotenv := store\<rparr>)))
               else (Inl (SystemExit ''Unable to generate access token''), s')))"
  using assms by (simp add: request_token_def http_def Let_def split: sum.splits)

lemma request_token_calls:
  "calls (snd (request_token T getenv s)) = calls s @ [token_request getenv]"
  by (simp add: request_token_def http_def split: prod.splits sum.splits)

lemma get_token_valid:
  assumes "getenv ''ACCESS_TOKEN'' = Some tok" "tok \<noteq> []"
    and "T (validate_request tok) (world s) = (Inr r, w1)"
    and "py_in ''client_id'' r = Inr True"
  shows "get_token T getenv s =
           (Inr (JStr tok), s\<lparr>world := w1, calls := calls s @ [validate_request tok]\<rparr>)"
  using assms by (simp add: get_token_def http_def)

lemma get_token_invalid:
  assumes "getenv ''ACCESS_TOKEN'' = Some tok" "tok \<noteq> []"
    and "T (validate_request tok) (world s) = (Inr r, w1)"
    and "py_in ''client_id'' r = Inr False"
  shows "get_token T getenv s =
           request_token T getenv (s\<lparr>world := w1, calls := calls s @ [validate_request tok]\<rparr>)"
  using assms by (simp add: get_token_def http_def)

lemma get_token_unsaved:
  assumes "getenv ''ACCESS_TOKEN'' = None \<or> getenv ''ACCESS_TOKEN'' = Some []"
  shows "get_token T getenv s = request_token T getenv s"
  using assms by (auto simp: get_token_def)

text \<open>
  Claim C7. With a stored (non-empty) token and a validation response that decodes:
  when the response contains \<open>client_id\<close>, \<open>get_token\<close> returns the stored token, the
  only request sent is the validation and the credential store is unchanged; when it
  does not, exactly one token request follows the validation, and the access token of
  its response (a string) is returned and stored under \<open>ACCESS_TOKEN\<close>.
\<close>

theorem get_token_validate_or_refresh:
  assumes saved: "getenv ''ACCESS_TOKEN'' = Some tok" "tok \<noteq> []"
    and validation: "T (validate_request tok) (world s) = (Inr r, w1)"
  shows "(py_in ''client_id'' r = Inr True \<longrightarrow>
            get_token T getenv s =
              (Inr (JStr tok), s\<lparr>world := w1, calls := calls s @ [validate_request tok]\<rparr>)) \<and>
         (py_in ''client_id'' r = Inr False \<longrightarrow>
            calls (snd (get_token T getenv s)) =
              calls s @ [validate_request tok, token_request getenv] \<and>
            (\<forall>r2 w2 new.
               T (token_request getenv) w1 = (Inr r2, w2) \<and>
               py_in ''access_token'' r2 = Inr True \<and> getitem r2 ''access_token'' = Inr (JStr new) \<longrightarrow>
               get_token T getenv s =
                 (Inr (JStr new), s\<lparr>world := w2,
                              calls := calls s @ [validate_request tok, token_request getenv],
                              dotenv := (dotenv s)(''ACCESS_TOKEN'' \<mapsto> new)\<rparr>)))"
proof (intro conjI impI allI)
  assume "py_in ''client_id'' r = Inr True"
  with saved validation show "get_token T getenv s =
      (Inr (JStr tok), s\<lparr>world := w1, calls := calls s @ [validate_request tok]\<rparr>)"
    by (rule get_token_valid)
next
  assume "py_in ''client_id'' r = Inr False"
  with saved validation have "get_token T getenv s =
      request_token T getenv (s\<lparr>world := w1, calls := calls s @ [validate_request tok]\<rparr>)"
    by (rule get_token_invalid)
  then show "calls (snd (get_token T getenv s)) =
      calls s @ [validate_request tok, token_request getenv]"
    by (simp add: request_token_calls)
next
  fix r2 w2 new
  assume invalid: "py_in ''client_id'' r = Inr False"
    and refresh: "T (token_request getenv) w1 = (Inr r2, w2) \<and>
               py_in ''access_token'' r2 = Inr True \<and> getitem r2 ''access_token'' = Inr (JStr new)"
  let ?s1 = "s\<lparr>world := w1, calls := calls s @ [validate_request tok]\<rparr>"
  from saved validation invalid have "get_token T getenv s = request_token T getenv ?s1"
    by (rule get_token_invalid)
  moreover from refresh have "T (token_request getenv) (world ?s1) = (Inr r2, w2)"
    by simp
  note request_token_eq [of T getenv ?s1 "Inr r2" w2, OF this]
  ultimately show "get_token T getenv s =
      (Inr (JStr new), s\<lparr>world := w2,
                   calls := calls s @ [validate_request tok, token_request getenv],
                   dotenv := (dotenv s)(''ACCESS_TOKEN'' \<mapsto> new)\<rparr>)"
    using refresh by simp
qed

text \<open>
  A stored token that validates, and one that does not: the platform answers the
  validation with a body without \<open>client_id\<close> and the token request with a new token.
\<close>

theorem get_token_validate_or_refresh_witness:
  "get_token (const_transport (Inr (JObj [(''client_id'', JStr ''id''), (''expires_in'', JInt 5000)])))
      env0 state0 =
     (Inr (JStr ''old''), state0\<lparr>world := (), calls := calls state0 @ [validate_request ''old'']\<rparr>) \<and>
   get_token (const_transport (Inr (JObj [(''access_token'', JStr ''new'')]))) env0 state0 =
     (Inr (JStr ''new''),
      state0\<lparr>world := (), calls := calls state0 @ [validate_request ''old'', token_request env0],
              dotenv := (dotenv state0)(''ACCESS_TOKEN'' \<mapsto> ''new'')\<rparr>)"
proof -
  let ?ok = "JObj [(''client_id'', JStr ''id''), (''expires_in'', JInt 5000)]"
  let ?new = "JObj [(''access_token'', JStr ''new'')]"
  have saved: "env0 ''ACCESS_TOKEN'' = Some ''old''" "''old'' \<noteq> []"
    by (simp_all add: env0_def)
  have r: "\<And>res rq w. const_transport res rq w = (res, ())"
    by (simp add: const_transport_def)
  have a: "get_token (const_transport (Inr ?ok)) env0 state0 =
     (Inr (JStr ''old''), state0\<lparr>world := (), calls := calls state0 @ [validate_request ''old'']\<rparr>)"
    using get_token_validate_or_refresh [of env0 "''old''" "const_transport (Inr ?ok)" state0 ?ok "()",
        OF saved r]
    by simp
  have b: "get_token (const_transport (Inr ?new)) env0 state0 =
     (Inr (JStr ''new''),
      state0\<lparr>world := (), calls := calls state0 @ [validate_request ''old'', token_request env0],
              dotenv := (dotenv state0)(''ACCESS_TOKEN'' \<mapsto> ''new'')\<rparr>)"
    using get_token_validate_or_refresh [of env0 "''old''" "const_transport (Inr ?new)" state0 ?new "()",
        OF saved r] r [of "Inr ?new" "token_request env0" "()"]
    by simp
  from a b show ?thesis by simp
qed

text \<open>
  Claim C8. Once \<open>get_token\<close> has to request a token (no stored token, or a stored one
  whose validation response has no \<open>client_id\<close>) and the response to the token request
  contains no \<open>access_token\<close>, \<open>get_token\<close> leaves through
  \<^verbatim>\<open>sys.exit("Unable to generate access token")\<close>: the constructor yields no client but
  the same \<open>SystemExit\<close>, the token request was sent once and not again, and nothing was
  stored.
\<close>

theorem get_token_fatal:
  assumes reach:
      "((getenv ''ACCESS_TOKEN'' = None \<or> getenv ''ACCESS_TOKEN'' = Some []) \<and> s1 = s) \<or>
       (\<exists>tok rv w1. getenv ''ACCESS_TOKEN'' = Some tok \<and> tok \<noteq> [] \<and>
          T (validate_request tok) (world s) = (Inr rv, w1) \<and>
          py_in ''client_id'' rv = Inr False \<and>
          s1 = s\<lparr>world := w1, calls := calls s @ [validate_request tok]\<rparr>)"
    and refresh: "T (token_request getenv) (world s1) = (Inr r, w')"
    and absent: "py_in ''access_token'' r = Inr False"
  shows "get_token T getenv s =
           (Inl (SystemExit ''Unable to generate access token''),
            s1\<lparr>world := w', calls := calls s1 @ [token_request getenv]\<rparr>) \<and>
         init T getenv s =
           (Inl (SystemExit ''Unable to generate access token''),
            s1\<lparr>world := w', calls := calls s1 @ [token_request getenv]\<rparr>)"
proof -
  from reach have "get_token T getenv s = request_token T getenv s1"
    by (auto simp: get_token_unsaved get_token_invalid)
  moreover from request_token_eq [of T getenv s1 "Inr r" w', OF refresh] absent
  have "request_token T getenv s1 =
      (Inl (SystemExit ''Unable to generate access token''),
       s1\<lparr>world := w', calls := calls s1 @ [token_request getenv]\<rparr>)"
    by simp
  ultimately show ?thesis by (simp add: init_def)
qed

text \<open>The token endpoint answers with an error body; once without, once with a stored token.\<close>

theorem get_token_fatal_witness:
  "init (const_transport (Inr (JObj [(''status'', JInt 400), (''message'', JStr ''invalid client'')])))
      env1 state0 =
     (Inl (SystemExit ''Unable to generate access token''),
      state0\<lparr>world := (), calls := calls state0 @ [token_request env1]\<rparr>) \<and>
   init (const_transport (Inr (JObj [(''status'', JInt 400), (''message'', JStr ''invalid client'')])))
      env0 state0 =
     (Inl (SystemExit ''Unable to generate access token''),
      state0\<lparr>world := (), calls := calls state0 @ [validate_request ''old'', token_request env0]\<rparr>)"
proof -
  let ?r = "JObj [(''status'', JInt 400), (''message'', JStr ''invalid client'')]"
  let ?T = "const_transport (Inr ?r)"
  have r: "\<And>rq w. ?T rq w = (Inr ?r, ())"
    by (simp add: const_transport_def)
  have absent: "py_in ''access_token'' ?r = Inr False" by simp
  have a: "init ?T env1 state0 =
     (Inl (SystemExit ''Unable to generate access token''),
      state0\<lparr>world := (), calls := calls state0 @ [token_request env1]\<rparr>)"
    using get_token_fatal [of env1 state0 state0 ?T ?r "()"] r absent
    by (simp add: env1_def)
  let ?s1 = "state0\<lparr>world := (), calls := calls state0 @ [validate_request ''old'']\<rparr>"
  have reach: "env0 ''ACCESS_TOKEN'' = Some ''old'' \<and> ''old'' \<noteq> [] \<and>
      ?T (validate_request ''old'') (world state0) = (Inr ?r, ()) \<and>
      py_in ''client_id'' ?r = Inr False \<and> ?s1 = state0\<lparr>world := (), calls := calls state0 @ [validate_request ''old'']\<rparr>"
    by (simp add: env0_def const_transport_def)
  have b: "init ?T env0 state0 =
     (Inl (SystemExit ''Unable to generate access token''),
      state0\<lparr>world := (), calls := calls state0 @ [validate_request ''old'', token_request env0]\<rparr>)"
    using get_token_fatal [of env0 ?s1 state0 ?T ?r "()"] reach r absent
    by auto
  from a b show ?thesis by simp
qed

subsection \<open>get_stream_details\<close>

lemma info_at_Inr: "info_at info v = Inr (k, ent) \<Longrightarrow> v = JStr k \<and> map_of info k = Some ent"
  by (cases v) (auto split: option.splits)

lemma isl_info_at_dom:
  "dom (map_of info') = dom (map_of info) \<Longrightarrow> isl (info_at info' v) = isl (info_at info v)"
  by (cases v) (auto split: option.splits)

lemma get_follower_count_calls:
  "calls (snd (get_follower_count T c uid s)) = calls s @ [follows_request c uid]"
  by (simp add: get_follower_count_def http_def split: prod.splits sum.splits)

lemma get_video_count_calls:
  "calls (snd (get_video_count T c uid s)) = calls s @ [videos_request c uid]"
  by (simp add: get_video_count_def http_def split: prod.splits sum.splits)

text \<open>What a successful round of the loop has done.\<close>

lemma enrich_Inr:
  assumes "enrich T c x info s = (Inr info', s')"
  shows "\<exists>k ent ent' tier.
     getitem x ''login'' = Inr (JStr k) \<and> getitem x ''broadcaster_type'' = Inr tier \<and>
     \<not> isl (getitem x ''view_count'') \<and>
     map_of info k = Some ent \<and> map_of info' = (map_of info)(k \<mapsto> ent') \<and>
     map_of ent' ''broadcaster_type'' = Some tier \<and>
     map_of ent' ''user_id'' = map_of ent ''user_id'' \<and>
     (if tier = JStr [] then
        map_of ent' ''followers'' \<noteq> None \<and> map_of ent' ''videos'' \<noteq> None \<and>
        (\<exists>uid. map_of ent ''user_id'' = Some uid \<and>
           calls s' = calls s @ [follows_request c uid, videos_request c uid])
      else
        map_of ent' ''followers'' = map_of ent ''followers'' \<and>
        map_of ent' ''videos'' = map_of ent ''videos'' \<and> calls s' = calls s)"
proof -
  obtain login where login: "getitem x ''login'' = Inr login"
    using assms by (cases "getitem x ''login''") (simp_all add: enrich_def)
  obtain k ent where at: "info_at info login = Inr (k, ent)"
    using assms login by (cases "info_at info login") (auto simp: enrich_def)
  obtain tier where tier: "getitem x ''broadcaster_type'' = Inr tier"
    using assms login at by (cases "getitem x ''broadcaster_type''") (simp_all add: enrich_def)
  obtain views where views: "getitem x ''view_count'' = Inr views"
    using assms login at tier by (cases "getitem x ''view_count''") (simp_all add: enrich_def)
  from at have k: "login = JStr k" "map_of info k = Some ent"
    by (simp_all add: info_at_Inr)
  let ?info1 = "AList.update ''channel_views'' views (AList.update ''broadcaster_type'' tier ent)"
  have uid1: "map_of ?info1 ''user_id'' = map_of ent ''user_id''"
    by (simp add: update_conv')
  show ?thesis
  proof (cases "tier = JStr []")
    case False
    with assms login at tier views
    have "info' = AList.update k ?info1 info" "s' = s"
      by (simp_all add: enrich_def)
    with False login k tier views show ?thesis
      by (intro exI [of _ k] exI [of _ ent] exI [of _ ?info1] exI [of _ tier])
        (simp add: update_conv')
  next
    case True
    have run: "(case map_of ent ''user_id'' of
                None \<Rightarrow> (Inl KeyError, s)
              | Some uid \<Rightarrow>
                  (case get_follower_count T c uid s of
                     (Inl e, s1) \<Rightarrow> (Inl e, s1)
                   | (Inr followers, s1) \<Rightarrow>
                       (case get_video_count T c uid s1 of
                          (Inl e, s2) \<Rightarrow> (Inl e, s2)
                        | (Inr videos, s2) \<Rightarrow>
                            (Inr (AList.update k
                                   (AList.update ''videos'' videos
                                     (AList.update ''followers'' followers ?info1))
                                   info), s2)))) = (Inr info', s')"
      using assms login at tier views unfolding True
      by (simp add: enrich_def Let_def update_conv')
    then obtain uid where uid': "map_of ent ''user_id'' = Some uid"
      by (cases "map_of ent ''user_id''") simp_all
    obtain fr s1 where f0: "get_follower_count T c uid s = (fr, s1)"
      by (cases "get_follower_count T c uid s")
    with run uid' obtain f where f: "get_follower_count T c uid s = (Inr f, s1)"
      by (cases fr) simp_all
    obtain vr s2 where v0: "get_video_count T c uid s1 = (vr, s2)"
      by (cases "get_video_count T c uid s1")
    with run uid' f obtain v where v: "get_video_count T c uid s1 = (Inr v, s2)"
      by (cases vr) simp_all
    from run uid' f v have info': "info' = AList.update k
           (AList.update ''videos'' v (AList.update ''followers'' f ?info1)) info"
      and s': "s' = s2"
      by simp_all
    from get_follower_count_calls [of T c uid s] f
    have "calls s1 = calls s @ [follows_request c uid]" by simp
    with get_video_count_calls [of T c uid s1] v s'
    have "calls s' = calls s @ [follows_request c uid, videos_request c uid]" by simp
    with True login k tier views uid' info' show ?thesis
      by (intro exI [of _ k] exI [of _ ent] exI [of _ tier]
          exI [of _ "AList.update ''videos'' v (AList.update ''followers'' f ?info1)"])
        (simp add: update_conv')
  qed
qed

lemma enrich_fails:
  assumes "record_fails info x"
  shows "isl (fst (enrich T c x info s))"
proof (cases "fst (enrich T c x info s)")
  case (Inl e)
  then show ?thesis by simp
next
  case (Inr info')
  then have "enrich T c x info s = (Inr info', snd (enrich T c x info s))"
    by (cases "enrich T c x info s") simp
  from enrich_Inr [OF this] obtain k ent tier where
    "getitem x ''login'' = Inr (JStr k)" "getitem x ''broadcaster_type'' = Inr tier"
    "\<not> isl (getitem x ''view_count'')" "map_of info k = Some ent"
    by blast
  with assms show ?thesis by (simp add: record_fails_def)
qed

lemma enrich_dom:
  assumes "enrich T c x info s = (Inr info', s')"
  shows "dom (map_of info') = dom (map_of info)"
proof -
  from enrich_Inr [OF assms] obtain k ent ent' where
    "map_of info k = Some ent" "map_of info' = (map_of info)(k \<mapsto> ent')"
    by blast
  then show ?thesis by auto
qed

lemma record_fails_dom:
  assumes "dom (map_of info') = dom (map_of info)"
  shows "record_fails info' x = record_fails info x"
proof (cases "getitem x ''login''")
  case (Inl e)
  then show ?thesis by (simp add: record_fails_def)
next
  case (Inr v)
  with isl_info_at_dom [OF assms, of v] show ?thesis
    by (simp add: record_fails_def)
qed

lemma enrich_all_fails:
  "\<exists>x\<in>set results. record_fails info x \<Longrightarrow> isl (fst (enrich_all T c results info s))"
proof (induction results arbitrary: info s)
  case Nil
  then show ?case by simp
next
  case (Cons x xs)
  obtain res s1 where step: "enrich T c x info s = (res, s1)"
    by (cases "enrich T c x info s")
  show ?case
  proof (cases res)
    case (Inl e)
    with step show ?thesis by simp
  next
    case (Inr info')
    with step have ok: "enrich T c x info s = (Inr info', s1)" by simp
    then have "\<not> record_fails info x"
      using enrich_fails [of info x T c s] by auto
    with Cons.prems have "\<exists>y\<in>set xs. record_fails info y" by auto
    then have "\<exists>y\<in>set xs. record_fails info' y"
      by (simp add: record_fails_dom [OF enrich_dom [OF ok]])
    from Cons.IH [OF this, of s1] ok show ?thesis by simp
  qed
qed


lemma details_body_eq:
  assumes "T (users_request c info) (world s) = (res, w')"
  shows "details_body T c info s =
     (case res of
        Inl e \<Rightarrow> (Inl e, s\<lparr>world := w', calls := calls s @ [users_request c info]\<rparr>)
      | Inr r \<Rightarrow>
          (case bindE (getitem r ''data'') py_iter of
             Inl e \<Rightarrow> (Inl e, s\<lparr>world := w', calls := calls s @ [users_request c info]\<rparr>)
           | Inr results \<Rightarrow>
               enrich_all T c results info
                 (s\<lparr>world := w', calls := calls s @ [users_request c info]\<rparr>)))"
  using assms by (simp add: details_body_def http_def bindE_def split: sum.splits)

lemma get_stream_details_eq:
  assumes "stream_info_of streams [] = Inr info"
  shows "get_stream_details T c streams s =
     (case fst (details_body T c info s) of
        Inl e \<Rightarrow> (Inr [], snd (details_body T c info s))
      | Inr m \<Rightarrow> (Inr m, snd (details_body T c info s)))"
  using assms by (simp add: get_stream_details_def split: prod.splits sum.splits)

lemma details_body_fails:
  assumes resp: "T (users_request c info) (world s) = (res, w')"
    and cause: "isl res \<or> (\<exists>r. res = Inr r \<and> isl (bindE (getitem r ''data'') py_iter)) \<or>
       (\<exists>r results. res = Inr r \<and> bindE (getitem r ''data'') py_iter = Inr results \<and>
          (\<exists>x\<in>set results. record_fails info x))"
  shows "isl (fst (details_body T c info s))"
proof -
  note body = details_body_eq [of T c info s res w', OF resp]
  from cause consider (transport) "isl res"
    | (shape) r where "res = Inr r" "isl (bindE (getitem r ''data'') py_iter)"
    | (user_record) r results where "res = Inr r" "bindE (getitem r ''data'') py_iter = Inr results"
        "\<exists>x\<in>set results. record_fails info x"
    by blast
  then show ?thesis
  proof cases
    case transport
    with body show ?thesis by (cases res) simp_all
  next
    case shape
    with body show ?thesis by (cases "bindE (getitem r ''data'') py_iter") simp_all
  next
    case user_record
    with body enrich_all_fails [OF user_record(3), of T c] show ?thesis by simp
  qed
qed

text \<open>
  Claim C3, as amended. Once the initial mapping has been built from the input streams,
  \<open>get_stream_details\<close> raises nothing, and every exception raised from the bulk users
  call onwards makes it return the empty mapping: in particular when the transport raises,
  when the response has no iterable \<open>data\<close>, and when some returned user record has no
  login, a login that is no key of the mapping, no tier or no view count.
\<close>

theorem get_stream_details_all_or_nothing:
  assumes seeded: "stream_info_of streams [] = Inr info"
    and resp: "T (users_request c info) (world s) = (res, w')"
  shows "(\<exists>m. fst (get_stream_details T c streams s) = Inr m) \<and>
         (isl (fst (details_body T c info s)) \<longrightarrow>
            fst (get_stream_details T c streams s) = Inr []) \<and>
         (isl res \<or> (\<exists>r. res = Inr r \<and> isl (bindE (getitem r ''data'') py_iter)) \<or>
          (\<exists>r results. res = Inr r \<and> bindE (getitem r ''data'') py_iter = Inr results \<and>
             (\<exists>x\<in>set results. record_fails info x)) \<longrightarrow>
            fst (get_stream_details T c streams s) = Inr [])"
proof -
  note run = get_stream_details_eq [OF seeded, of T c s]
  have returns: "\<exists>m. fst (get_stream_details T c streams s) = Inr m"
    using run by (cases "fst (details_body T c info s)") simp_all
  have handler: "fst (get_stream_details T c streams s) = Inr []"
    if "isl (fst (details_body T c info s))"
    using run that by (cases "fst (details_body T c info s)") simp_all
  have causes: "fst (get_stream_details T c streams s) = Inr []"
    if "isl res \<or> (\<exists>r. res = Inr r \<and> isl (bindE (getitem r ''data'') py_iter)) \<or>
       (\<exists>r results. res = Inr r \<and> bindE (getitem r ''data'') py_iter = Inr results \<and>
          (\<exists>x\<in>set results. record_fails info x))"
    using handler details_body_fails [of T c info s res w', OF resp that] by simp
  from returns handler causes show ?thesis by blast
qed


lemma seeded_alice:
  "stream_info_of [example_stream ''Alice'' ''1'' 500] [] =
     Inr [(''alice'', [(''user_id'', JStr ''1''), (''viewer_count'', JInt 500),
                       (''title'', JStr ''any%''), (''thumbnail'', JStr ''t.jpg''),
                       (''started'', JStr ''2021-01-01T00:00:00Z''),
                       (''display'', JStr ''alice'')])]"
  by (simp add: summary_of_def example_stream_def lower_char_def)

text \<open>
  One valid input stream, and three failures after the mapping is built: the transport
  raises, the body has no \<open>data\<close>, the only returned record is for another login.
\<close>

theorem get_stream_details_all_or_nothing_witness:
  "fst (get_stream_details (const_transport (Inl (OtherError ''ReadTimeout''))) client0
          [example_stream ''Alice'' ''1'' 500] state0) = Inr [] \<and>
   fst (get_stream_details (const_transport (Inr (JObj [(''error'', JStr ''Unauthorized'')]))) client0
          [example_stream ''Alice'' ''1'' 500] state0) = Inr [] \<and>
   fst (get_stream_details
          (const_transport (Inr (JObj [(''data'', JList [example_user ''nobody'' ''partner''])]))) client0
          [example_stream ''Alice'' ''1'' 500] state0) = Inr []"
proof -
  let ?info = "[(''alice'', [(''user_id'', JStr ''1''), (''viewer_count'', JInt 500),
                       (''title'', JStr ''any%''), (''thumbnail'', JStr ''t.jpg''),
                       (''started'', JStr ''2021-01-01T00:00:00Z''),
                       (''display'', JStr ''alice'')])]"
  let ?streams = "[example_stream ''Alice'' ''1'' 500]"
  have r: "\<And>res. const_transport res (users_request client0 ?info) (world state0) = (res, ())"
    by (simp add: const_transport_def)
  let ?e = "Inl (OtherError ''ReadTimeout'') :: exn + json"
  have a: "fst (get_stream_details (const_transport ?e) client0 ?streams state0) = Inr []"
    using get_stream_details_all_or_nothing [of ?streams ?info "const_transport ?e" client0 state0 ?e "()",
        OF seeded_alice r]
    by simp
  let ?b = "Inr (JObj [(''error'', JStr ''Unauthorized'')]) :: exn + json"
  have b: "fst (get_stream_details (const_transport ?b) client0 ?streams state0) = Inr []"
    using get_stream_details_all_or_nothing [of ?streams ?info "const_transport ?b" client0 state0 ?b "()",
        OF seeded_alice r]
    by simp
  let ?c = "Inr (JObj [(''data'', JList [example_user ''nobody'' ''partner''])]) :: exn + json"
  have fails: "record_fails ?info (example_user ''nobody'' ''partner'')"
    by (simp add: record_fails_def example_user_def)
  have c: "fst (get_stream_details (const_transport ?c) client0 ?streams state0) = Inr []"
    using get_stream_details_all_or_nothing [of ?streams ?info "const_transport ?c" client0 state0 ?c "()",
        OF seeded_alice r] fails
    by simp
  from a b c show ?thesis by simp
qed

text \<open>
  Claim C3 as stated (any exception at any stage gives the empty mapping) fails at the
  first stage: the dict comprehension over the input streams stands before the
  \<^verbatim>\<open>try\<close>, so an input stream without \<open>user_name\<close> raises KeyError to the caller, and
  one whose \<open>user_name\<close> is not a string raises AttributeError.
\<close>

theorem get_stream_details_all_or_nothing_counterexample:
  "fst (get_stream_details (const_transport (Inr (JObj [(''data'', JList [])]))) client0
          [JObj [(''viewer_count'', JInt 500)]] state0) = Inl KeyError \<and>
   fst (get_stream_details (const_transport (Inr (JObj [(''data'', JList [])]))) client0
          [JObj [(''user_name'', JNull), (''viewer_count'', JInt 500)]] state0) = Inl AttributeError"
  by (simp add: get_stream_details_def summary_of_def)

subsection \<open>get_stream_details: enrichment and tier\<close>

lemma summary_of_unenriched: "summary_of x = Inr (k, v) \<Longrightarrow> unenriched v"
  by (auto simp: summary_of_def bindE_Inr_iff unenriched_def)

lemma stream_info_of_unenriched:
  assumes "stream_info_of streams acc = Inr info"
    and "\<And>k ent. map_of acc k = Some ent \<Longrightarrow> unenriched ent"
    and "map_of info k = Some ent"
  shows "unenriched ent"
  using assms
proof (induction streams arbitrary: acc)
  case Nil
  then show ?case by simp
next
  case (Cons x xs)
  from Cons.prems(1) obtain k' v where step: "summary_of x = Inr (k', v)"
    and rest: "stream_info_of xs (AList.update k' v acc) = Inr info"
    by (cases "summary_of x") (auto split: prod.splits)
  have "unenriched ent'" if "map_of (AList.update k' v acc) k'' = Some ent'" for k'' ent'
    using that summary_of_unenriched [OF step] Cons.prems(2)
    by (auto simp: update_conv' split: if_splits)
  from Cons.IH [OF rest this Cons.prems(3)] show ?case .
qed

lemma unenriched_consistent: "unenriched ent \<Longrightarrow> tier_consistent ent"
  by (simp add: unenriched_def tier_consistent_def)

lemma lookups_of_cong: "uid_of info' = uid_of info \<Longrightarrow> lookups_of c info' x = lookups_of c info x"
  by (simp add: lookups_of_def split: sum.splits json.splits)

text \<open>
  The invariant of the loop, for records with pairwise distinct logins: every entry is
  tier-consistent, and the entries of the records still to come are untouched.
\<close>

lemma enrich_all_invariant:
  assumes "enrich_all T c results info s = (Inr m, s')"
    and "distinct (map (\<lambda>x. getitem x ''login'') results)"
    and "\<forall>k ent. map_of info k = Some ent \<longrightarrow> tier_consistent ent"
    and "\<forall>x\<in>set results. \<forall>k ent. getitem x ''login'' = Inr (JStr k) \<longrightarrow>
           map_of info k = Some ent \<longrightarrow> unenriched ent"
  shows "(\<forall>k ent. map_of m k = Some ent \<longrightarrow> tier_consistent ent) \<and>
         uid_of m = uid_of info \<and>
         calls s' = calls s @ concat (map (lookups_of c info) results)"
  using assms
proof (induction results arbitrary: info s)
  case Nil
  then show ?case by simp
next
  case (Cons x xs)
  obtain res s1 where step0: "enrich T c x info s = (res, s1)"
    by (cases "enrich T c x info s")
  with Cons.prems(1) obtain info' where step: "enrich T c x info s = (Inr info', s1)"
    and rest: "enrich_all T c xs info' s1 = (Inr m, s')"
    by (cases res) simp_all
  from enrich_Inr [OF step] obtain k ent ent' tier where
    login: "getitem x ''login'' = Inr (JStr k)"
    and tier: "getitem x ''broadcaster_type'' = Inr tier"
    and ent: "map_of info k = Some ent"
    and info': "map_of info' = (map_of info)(k \<mapsto> ent')"
    and tier': "map_of ent' ''broadcaster_type'' = Some tier"
    and uid: "map_of ent' ''user_id'' = map_of ent ''user_id''"
    and eff: "if tier = JStr [] then
        map_of ent' ''followers'' \<noteq> None \<and> map_of ent' ''videos'' \<noteq> None \<and>
        (\<exists>uid. map_of ent ''user_id'' = Some uid \<and>
           calls s1 = calls s @ [follows_request c uid, videos_request c uid])
      else
        map_of ent' ''followers'' = map_of ent ''followers'' \<and>
        map_of ent' ''videos'' = map_of ent ''videos'' \<and> calls s1 = calls s"
    by (elim exE conjE)
  have fresh: "unenriched ent"
    using Cons.prems(4) login ent by simp
  have ent'_ok: "tier_consistent ent'"
  proof (cases "tier = JStr []")
    case True
    with eff tier' show ?thesis by (simp add: tier_consistent_def)
  next
    case False
    with eff tier' fresh show ?thesis by (simp add: tier_consistent_def unenriched_def)
  qed
  have inv1: "tier_consistent e" if "map_of info' j = Some e" for j e
    using that info' ent'_ok Cons.prems(3) by (cases "j = k") simp_all
  have inv2: "unenriched e"
    if "y \<in> set xs" "getitem y ''login'' = Inr (JStr j)" "map_of info' j = Some e" for y j e
  proof -
    from Cons.prems(2) that(1) have "getitem y ''login'' \<noteq> getitem x ''login''"
      by (force simp: image_iff)
    with that(2) login have "j \<noteq> k" by auto
    with that(3) info' have "map_of info j = Some e" by simp
    with Cons.prems(4) that show ?thesis by simp
  qed
  have uids: "uid_of info' = uid_of info"
  proof
    fix j show "uid_of info' j = uid_of info j"
      using info' ent uid by (cases "j = k") (simp_all add: uid_of_def)
  qed
  have here: "calls s1 = calls s @ lookups_of c info x"
  proof (cases "tier = JStr []")
    case True
    with eff obtain u where "map_of ent ''user_id'' = Some u"
      "calls s1 = calls s @ [follows_request c u, videos_request c u]"
      by auto
    with True login tier ent show ?thesis
      by (simp add: lookups_of_def uid_of_def)
  next
    case False
    with eff tier show ?thesis by (simp add: lookups_of_def)
  qed
  from Cons.prems(2) have dist: "distinct (map (\<lambda>x. getitem x ''login'') xs)"
    by simp
  from inv1 have inv1': "\<forall>k ent. map_of info' k = Some ent \<longrightarrow> tier_consistent ent"
    by blast
  from inv2 have inv2': "\<forall>x\<in>set xs. \<forall>k ent. getitem x ''login'' = Inr (JStr k) \<longrightarrow>
           map_of info' k = Some ent \<longrightarrow> unenriched ent"
    by blast
  from Cons.IH [OF rest dist inv1' inv2']
  have "(\<forall>k ent. map_of m k = Some ent \<longrightarrow> tier_consistent ent) \<and>
         uid_of m = uid_of info' \<and>
         calls s' = calls s1 @ concat (map (lookups_of c info') xs)"
    by blast
  moreover have "lookups_of c info' = lookups_of c info"
    by (rule ext) (rule lookups_of_cong [OF uids])
  ultimately show ?case
    using uids here by simp
qed


text \<open>
  Claim C2, as amended. When the bulk response holds at most one user record per login,
  then in every non-empty mapping \<open>get_stream_details\<close> returns, the follower count of
  an entry is present exactly when its tier is the empty string, and so is its video
  count. The requests sent are the bulk users call followed, record by record, by the
  two lookups of each record whose tier is the empty string: a record with a partner or
  affiliate tier adds no request.
\<close>

theorem get_stream_details_enrichment:
  assumes seeded: "stream_info_of streams [] = Inr info"
    and resp: "T (users_request c info) (world s) = (Inr r, w1)"
    and results: "bindE (getitem r ''data'') py_iter = Inr results"
    and logins: "distinct (map (\<lambda>x. getitem x ''login'') results)"
    and ret: "get_stream_details T c streams s = (Inr m, s')"
    and nonempty: "m \<noteq> []"
  shows "(\<forall>k ent. map_of m k = Some ent \<longrightarrow>
            (map_of ent ''followers'' \<noteq> None) = (map_of ent ''broadcaster_type'' = Some (JStr [])) \<and>
            (map_of ent ''videos'' \<noteq> None) = (map_of ent ''broadcaster_type'' = Some (JStr []))) \<and>
         calls s' = calls s @ users_request c info # concat (map (lookups_of c m) results)"
proof -
  let ?s1 = "s\<lparr>world := w1, calls := calls s @ [users_request c info]\<rparr>"
  from get_stream_details_eq [OF seeded, of T c s] ret nonempty
  have "details_body T c info s = (Inr m, s')"
    by (cases "details_body T c info s"; cases "fst (details_body T c info s)") auto
  with details_body_eq [of T c info s "Inr r" w1, OF resp] results
  have loop: "enrich_all T c results info ?s1 = (Inr m, s')"
    by simp
  have fresh: "unenriched ent" if "map_of info k = Some ent" for k ent
    using stream_info_of_unenriched [OF seeded _ that] by simp
  then have inv1: "\<forall>k ent. map_of info k = Some ent \<longrightarrow> tier_consistent ent"
    by (blast intro: unenriched_consistent)
  from fresh have inv2: "\<forall>x\<in>set results. \<forall>k ent. getitem x ''login'' = Inr (JStr k) \<longrightarrow>
      map_of info k = Some ent \<longrightarrow> unenriched ent"
    by blast
  from enrich_all_invariant [OF loop logins inv1 inv2]
  have all: "\<forall>k ent. map_of m k = Some ent \<longrightarrow> tier_consistent ent"
    and uids: "uid_of m = uid_of info"
    and log: "calls s' = calls ?s1 @ concat (map (lookups_of c info) results)"
    by blast+
  have "lookups_of c m = lookups_of c info"
    by (rule ext) (rule lookups_of_cong [OF uids])
  with log have "calls s' = calls s @ users_request c info # concat (map (lookups_of c m) results)"
    by simp
  with all show ?thesis
    by (simp add: tier_consistent_def)
qed


lemmas run_simps =
  get_stream_details_def details_body_def enrich_def get_follower_count_def get_video_count_def
  http_def const_transport_def summary_of_def example_stream_def example_user_def lower_char_def
  state0_def Let_def

text \<open>
  A partnered and an unpartnered stream: only the second entry has a follower and a video
  count, and the two lookups are for its user id.
\<close>

theorem get_stream_details_enrichment_witness:
  "fst (get_stream_details
          (const_transport (Inr (JObj [(''data'', JList [example_user ''alice'' ''partner'',
                                                       example_user ''bob'' []]),
                                       (''total'', JInt 42)])))
          client0 [example_stream ''Alice'' ''1'' 500, example_stream ''Bob'' ''2'' 150] state0) =
     Inr [(''alice'',
           [(''user_id'', JStr ''1''), (''viewer_count'', JInt 500), (''title'', JStr ''any%''),
            (''thumbnail'', JStr ''t.jpg''), (''started'', JStr ''2021-01-01T00:00:00Z''),
            (''display'', JStr ''alice''), (''broadcaster_type'', JStr ''partner''),
            (''channel_views'', JInt 10)]),
          (''bob'',
           [(''user_id'', JStr ''2''), (''viewer_count'', JInt 150), (''title'', JStr ''any%''),
            (''thumbnail'', JStr ''t.jpg''), (''started'', JStr ''2021-01-01T00:00:00Z''),
            (''display'', JStr ''bob''), (''broadcaster_type'', JStr []),
            (''channel_views'', JInt 10), (''followers'', JInt 42), (''videos'', JInt 2)])] \<and>
   drop 1 (calls (snd (get_stream_details
          (const_transport (Inr (JObj [(''data'', JList [example_user ''alice'' ''partner'',
                                                       example_user ''bob'' []]),
                                       (''total'', JInt 42)])))
          client0 [example_stream ''Alice'' ''1'' 500, example_stream ''Bob'' ''2'' 150] state0))) =
     [follows_request client0 (JStr ''2''), videos_request client0 (JStr ''2'')]"
proof -
  let ?results = "[example_user ''alice'' ''partner'', example_user ''bob'' []]"
  let ?r = "JObj [(''data'', JList ?results), (''total'', JInt 42)]"
  let ?T = "const_transport (Inr ?r)"
  let ?streams = "[example_stream ''Alice'' ''1'' 500, example_stream ''Bob'' ''2'' 150]"
  let ?info = "[(''alice'',
           [(''user_id'', JStr ''1''), (''viewer_count'', JInt 500), (''title'', JStr ''any%''),
            (''thumbnail'', JStr ''t.jpg''), (''started'', JStr ''2021-01-01T00:00:00Z''),
            (''display'', JStr ''alice'')]),
          (''bob'',
           [(''user_id'', JStr ''2''), (''viewer_count'', JInt 150), (''title'', JStr ''any%''),
            (''thumbnail'', JStr ''t.jpg''), (''started'', JStr ''2021-01-01T00:00:00Z''),
            (''display'', JStr ''bob'')])]"
  let ?m = "[(''alice'',
           [(''user_id'', JStr ''1''), (''viewer_count'', JInt 500), (''title'', JStr ''any%''),
            (''thumbnail'', JStr ''t.jpg''), (''started'', JStr ''2021-01-01T00:00:00Z''),
            (''display'', JStr ''alice''), (''broadcaster_type'', JStr ''partner''),
            (''channel_views'', JInt 10)]),
          (''bob'',
           [(''user_id'', JStr ''2''), (''viewer_count'', JInt 150), (''title'', JStr ''any%''),
            (''thumbnail'', JStr ''t.jpg''), (''started'', JStr ''2021-01-01T00:00:00Z''),
            (''display'', JStr ''bob''), (''broadcaster_type'', JStr []),
            (''channel_views'', JInt 10), (''followers'', JInt 42), (''videos'', JInt 2)])]"
  have seeded: "stream_info_of ?streams [] = Inr ?info"
    by (simp add: summary_of_def example_stream_def lower_char_def)
  have resp: "?T (users_request client0 ?info) (world state0) = (Inr ?r, ())"
    by (simp add: const_transport_def)
  have results: "bindE (getitem ?r ''data'') py_iter = Inr ?results"
    by simp
  have logins: "distinct (map (\<lambda>x. getitem x ''login'') ?results)"
    by (simp add: example_user_def)
  have out: "fst (get_stream_details ?T client0 ?streams state0) = Inr ?m"
    by (simp add: run_simps)
  then have ret: "get_stream_details ?T client0 ?streams state0 =
      (Inr ?m, snd (get_stream_details ?T client0 ?streams state0))"
    by (cases "get_stream_details ?T client0 ?streams state0") simp
  have nonempty: "?m \<noteq> []" by simp
  from get_stream_details_enrichment [of ?streams ?info ?T client0 state0 ?r "()" ?results ?m
      "snd (get_stream_details ?T client0 ?streams state0)", OF seeded resp results logins ret nonempty]
  have "calls (snd (get_stream_details ?T client0 ?streams state0)) =
      calls state0 @ users_request client0 ?info # concat (map (lookups_of client0 ?m) ?results)"
    by simp
  then have "drop 1 (calls (snd (get_stream_details ?T client0 ?streams state0))) =
     [follows_request client0 (JStr ''2''), videos_request client0 (JStr ''2'')]"
    by (simp add: state0_def lookups_of_def uid_of_def example_user_def)
  with out show ?thesis by simp
qed

text \<open>
  Claim C2 as stated fails when the bulk response repeats a login: a first record with
  the empty tier attaches both counts, a second one with tier \<open>partner\<close> overwrites the
  tier and leaves them, so the returned entry has a follower and a video count and the
  tier \<open>partner\<close>.
\<close>

theorem get_stream_details_enrichment_counterexample:
  "fst (get_stream_details
          (const_transport (Inr (JObj [(''data'', JList [example_user ''alice'' [],
                                                       example_user ''alice'' ''partner''])])))
          client0 [example_stream ''Alice'' ''1'' 500] state0) =
     Inr [(''alice'',
           [(''user_id'', JStr ''1''), (''viewer_count'', JInt 500), (''title'', JStr ''any%''),
            (''thumbnail'', JStr ''t.jpg''), (''started'', JStr ''2021-01-01T00:00:00Z''),
            (''display'', JStr ''alice''), (''broadcaster_type'', JStr ''partner''),
            (''channel_views'', JInt 10), (''followers'', JInt 10000000), (''videos'', JInt 2)])]"
  by (simp add: run_simps)

end
